theory Spec2Isabelle
  imports Main "HOL-Library.AList" "HOL-Library.Word"
begin

section \<open>Values exchanged with the graph database\<close>

text \<open>
  The driver hands every column of a result row to the repository as a Go \<^verbatim>\<open>any\<close>:
  \<^verbatim>\<open>nil\<close>, a scalar, a list, a \<^verbatim>\<open>neo4j.Node\<close> or a \<^verbatim>\<open>neo4j.Relationship\<close>.
  A Go \<^verbatim>\<open>map[string]any\<close> is an association list read with \<open>map_of\<close> and written
  with \<open>AList.update\<close>, so a key is bound once, as in the Go map.
\<close>

datatype 'v node = Node (ElementId: string) (Labels: "string list") (Props: "(string \<times> 'v) list")

datatype 'v relationship =
  Relationship (RelElementId: string) (StartElementId: string) (EndElementId: string)
    (RelType: string) (RelProps: "(string \<times> 'v) list")

datatype val =
    VNil
  | VString string
  | VInt64 "64 word"
  | VBool bool
  | VList "val list"
  | VNode "val node"
  | VRelationship "val relationship"

text \<open>The dynamic types that \<^verbatim>\<open>reflect\<close> sees, and the static types a struct field may have.\<close>

datatype gotype = TString | TInt64 | TBool | TList | TNode | TRelationship | TAny

fun TypeOf :: "val \<Rightarrow> gotype option" where
  "TypeOf VNil = None"
| "TypeOf (VString _) = Some TString"
| "TypeOf (VInt64 _) = Some TInt64"
| "TypeOf (VBool _) = Some TBool"
| "TypeOf (VList _) = Some TList"
| "TypeOf (VNode _) = Some TNode"
| "TypeOf (VRelationship _) = Some TRelationship"

text \<open>A value may be stored in a field of its own type or in a field of type \<^verbatim>\<open>any\<close>.\<close>

definition AssignableTo :: "gotype \<Rightarrow> gotype \<Rightarrow> bool" where
  "AssignableTo t ft \<longleftrightarrow> ft = TAny \<or> t = ft"

fun zero :: "gotype \<Rightarrow> val" where
  "zero TString = VString []"
| "zero TInt64 = VInt64 0"
| "zero TBool = VBool False"
| "zero TList = VList []"
| "zero TNode = VNode (Node [] [] [])"
| "zero TRelationship = VRelationship (Relationship [] [] [] [] [])"
| "zero TAny = VNil"

section \<open>Errors and outcomes\<close>

text \<open>
  One constructor per error the package creates; \<open>Foreign\<close> is an error made by a
  collaborator (the query builder or the runner), \<open>CouldNotBuild\<close> and
  \<open>CouldNotBuildCount\<close> wrap their cause with \<^verbatim>\<open>%w\<close>.
\<close>

datatype error =
    ErrNotFound
  | NotAStruct string
  | MissingPropertyTag string
  | NoPrimaryKey string
  | ExpectedOneRecord nat
  | ReturnValueMissing
  | ReturnValueNotNode
  | NotMappedProperty string string
  | CountValueNotFound
  | CouldNotBuild error
  | CouldNotBuildCount error
  | Foreign string

text \<open>\<^verbatim>\<open>errors.Is(err, ErrNotFound)\<close>: the sentinel itself or an error wrapping it.\<close>

fun IsErrNotFound :: "error \<Rightarrow> bool" where
  "IsErrNotFound ErrNotFound = True"
| "IsErrNotFound (CouldNotBuild e) = IsErrNotFound e"
| "IsErrNotFound (CouldNotBuildCount e) = IsErrNotFound e"
| "IsErrNotFound _ = False"

text \<open>A call panics, returns a non-nil error, or returns its value.\<close>

datatype 'a outcome = Panics | Fails error | Returns 'a

section \<open>Strings\<close>

definition HasPrefix :: "string \<Rightarrow> string \<Rightarrow> bool" where
  "HasPrefix s p \<longleftrightarrow> take (length p) s = p"

definition TrimPrefix :: "string \<Rightarrow> string \<Rightarrow> string" where
  "TrimPrefix s p = (if HasPrefix s p then drop (length p) s else s)"

definition HasSuffix :: "string \<Rightarrow> string \<Rightarrow> bool" where
  "HasSuffix s suf \<longleftrightarrow> length suf \<le> length s \<and> drop (length s - length suf) s = suf"

text \<open>\<^verbatim>\<open>strings.Split(s, sep)\<close> for a separator of one character.\<close>

fun Split :: "string \<Rightarrow> char \<Rightarrow> string list" where
  "Split [] sep = [[]]"
| "Split (c # cs) sep =
     (if c = sep then [] # Split cs sep
      else (case Split cs sep of [] \<Rightarrow> [[c]] | p # ps \<Rightarrow> (c # p) # ps))"

section \<open>Struct types and metadata resolution\<close>

text \<open>
  A \<^verbatim>\<open>reflect.StructField\<close>: its name, its package path (empty exactly for an exported
  field), its type, and the value of the \<^verbatim>\<open>crud\<close> key of its tag (empty when absent).
\<close>

datatype struct_field =
  StructField (Name: string) (PkgPath: string) (Type: gotype) (CrudTag: string)

text \<open>
  A \<^verbatim>\<open>reflect.Type\<close>: a struct type, a pointer type, a type of any other kind, or the nil
  \<^verbatim>\<open>reflect.Type\<close> that \<^verbatim>\<open>reflect.TypeOf\<close> returns for a nil interface value.
\<close>

datatype rtype = Struct string "struct_field list" | Ptr rtype | Other string | NilType

fun TypeName :: "rtype \<Rightarrow> string" where
  "TypeName (Struct n _) = n"
| "TypeName (Ptr _) = []"
| "TypeName (Other n) = n"
| "TypeName NilType = []"

record entityMetadata =
  Label :: string
  PKField :: string
  PKProp :: string
  Mappings :: "(string \<times> string) list"

text \<open>The inner loop over the parts of one tag: \<open>(isPk, propName)\<close>.\<close>

fun parseParts :: "string list \<Rightarrow> bool \<times> string \<Rightarrow> bool \<times> string" where
  "parseParts [] acc = acc"
| "parseParts (part # parts) (isPk, propName) =
     parseParts parts
       (if part = ''pk'' then True else isPk,
        if HasPrefix part ''property:'' then TrimPrefix part ''property:'' else propName)"

text \<open>The loop over the fields; it returns at the first field without a property name.\<close>

fun parseFields :: "struct_field list \<Rightarrow> entityMetadata \<Rightarrow> error + entityMetadata" where
  "parseFields [] meta = Inr meta"
| "parseFields (field # rest) meta =
     (if CrudTag field = [] then parseFields rest meta
      else
        (case parseParts (Split (CrudTag field) CHR '','') (False, []) of
          (isPk, propName) \<Rightarrow>
            if propName = [] then Inl (MissingPropertyTag (Name field))
            else
              parseFields rest
                ((if isPk then meta\<lparr>PKField := Name field, PKProp := propName\<rparr> else meta)
                  \<lparr>Mappings := AList.update (Name field) propName (Mappings meta)\<rparr>)))"

text \<open>
  \<^verbatim>\<open>typ.Kind()\<close> on the nil \<^verbatim>\<open>reflect.Type\<close> is a call on a nil interface and panics;
  it is the first thing \<^verbatim>\<open>parseTagsFromType\<close> does, and it does it again after
  \<^verbatim>\<open>Elem()\<close>.
\<close>

definition parseTagsFromType :: "rtype \<Rightarrow> entityMetadata outcome" where
  "parseTagsFromType typ0 =
     (case typ0 of
        NilType \<Rightarrow> Panics
      | _ \<Rightarrow>
          (let typ = (case typ0 of Ptr t \<Rightarrow> t | _ \<Rightarrow> typ0) in
           case typ of
             NilType \<Rightarrow> Panics
           | Struct n flds \<Rightarrow>
               (case parseFields flds \<lparr>Label = n, PKField = [], PKProp = [], Mappings = []\<rparr> of
                  Inl e \<Rightarrow> Fails e
                | Inr meta \<Rightarrow>
                    if PKField meta = [] then Fails (NoPrimaryKey n) else Returns meta)
           | _ \<Rightarrow> Fails (NotAStruct (TypeName typ))))"

text \<open>
  \<^verbatim>\<open>parseTags[T]\<close> resolves \<^verbatim>\<open>reflect.TypeOf\<close> of the zero value of \<open>T\<close>. A type
  parameter is given here by that \<^verbatim>\<open>reflect.Type\<close>: the struct type or pointer type
  itself, and the nil type when \<open>T\<close> is an interface type.
\<close>

definition parseTags :: "rtype \<Rightarrow> entityMetadata outcome" where
  "parseTags T = parseTagsFromType T"

section \<open>Reflection on an entity\<close>

text \<open>
  What \<^verbatim>\<open>reflect.ValueOf(entity).Elem()\<close> is for a non-nil \<^verbatim>\<open>*T\<close>: for a struct type
  \<open>T\<close> the struct value, every declared field with its current value; for any other
  \<open>T\<close> (a pointer type, which \<^verbatim>\<open>NewRepository\<close> accepts) a value that is not a struct.
  \<^verbatim>\<open>new(T)\<close> holds the zero value in every field.
\<close>

datatype entity = StructValue "(struct_field \<times> val) list" | NonStructValue

fun New :: "rtype \<Rightarrow> entity" where
  "New (Struct n flds) = StructValue (map (\<lambda>f. (f, zero (Type f))) flds)"
| "New _ = NonStructValue"

text \<open>
  \<^verbatim>\<open>val.FieldByName(name)\<close> panics on a value that is not a struct; on a struct it
  returns the field of that name, \<open>None\<close> being the invalid \<^verbatim>\<open>reflect.Value\<close>.
\<close>

definition lookupField :: "(struct_field \<times> val) list \<Rightarrow> string \<Rightarrow> (struct_field \<times> val) option" where
  "lookupField sv name = find (\<lambda>fv. Name (fst fv) = name) sv"

definition FieldByName :: "entity \<Rightarrow> string \<Rightarrow> (struct_field \<times> val) option outcome" where
  "FieldByName ent name =
     (case ent of
        StructValue sv \<Rightarrow> Returns (lookupField sv name)
      | NonStructValue \<Rightarrow> Panics)"

text \<open>A field of an addressable struct can be set exactly when it is exported.\<close>

definition CanSet :: "struct_field \<times> val \<Rightarrow> bool" where
  "CanSet fv \<longleftrightarrow> PkgPath (fst fv) = []"

text \<open>
  \<^verbatim>\<open>Value.Interface()\<close> panics on the invalid value and on a value obtained from an
  unexported field.
\<close>

definition Interface :: "(struct_field \<times> val) option \<Rightarrow> val outcome" where
  "Interface field =
     (case field of
        None \<Rightarrow> Panics
      | Some fv \<Rightarrow> if PkgPath (fst fv) = [] then Returns (snd fv) else Panics)"

fun store :: "(struct_field \<times> val) list \<Rightarrow> string \<Rightarrow> val \<Rightarrow> (struct_field \<times> val) list" where
  "store [] name x = []"
| "store (fv # sv) name x =
     (if Name (fst fv) = name then (fst fv, x) # sv else fv # store sv name x)"

text \<open>
  \<^verbatim>\<open>field.Set(reflect.ValueOf(x))\<close> on the field called \<open>name\<close>: it panics when \<open>x\<close> is
  \<^verbatim>\<open>nil\<close> (the zero \<^verbatim>\<open>reflect.Value\<close>), when the field cannot be set, and when the
  type of \<open>x\<close> is not assignable to the type of the field.
\<close>

definition SetField :: "entity \<Rightarrow> string \<Rightarrow> val \<Rightarrow> entity outcome" where
  "SetField ent name x =
     (case ent of
        NonStructValue \<Rightarrow> Panics
      | StructValue sv \<Rightarrow>
          (case lookupField sv name of
             None \<Rightarrow> Panics
           | Some fv \<Rightarrow>
               (case TypeOf x of
                  None \<Rightarrow> Panics
                | Some t \<Rightarrow>
                    if CanSet fv \<and> AssignableTo t (Type (fst fv))
                    then Returns (StructValue (store sv name x)) else Panics)))"

section \<open>Result rows, the query builder and the runner\<close>

text \<open>
  A \<^verbatim>\<open>neo4j.Record\<close> keeps its column names and its values in two slices of the same
  length; here a row is the list of its columns, each a name with its value.
  \<^verbatim>\<open>Record.Get\<close> returns the value of the first column of that name.
\<close>

type_synonym row = "(string \<times> val) list"

definition Keys :: "row \<Rightarrow> string list" where
  "Keys record = map fst record"

definition Values :: "row \<Rightarrow> val list" where
  "Values record = map snd record"

definition Get :: "row \<Rightarrow> string \<Rightarrow> val option" where
  "Get record key = map_of record key"

text \<open>
  The calls made on a \<^verbatim>\<open>gocypher.QueryBuilder\<close>, in order. \<open>Raw\<close> stands for any
  other call a caller makes on a builder of its own.
\<close>

datatype pattern = N string string | WithProperties pattern "(string \<times> val) list"

datatype clause =
    Match pattern
  | Merge pattern
  | SetClause "(string \<times> val) list"
  | DetachDelete string
  | Return "string list"
  | Raw string

type_synonym QueryBuilder = "clause list"

text \<open>
  \<^verbatim>\<open>Build\<close> and \<^verbatim>\<open>DBRunner.Run\<close> belong to collaborators: \<open>bld\<close> maps a builder to
  a build error or a built query of type \<open>'q\<close>, the runner maps a built query to an
  error or the records of an \<^verbatim>\<open>EagerResult\<close>. Every operation returns the calls it
  made on them, in order, next to its outcome.
\<close>

datatype 'q call = Build QueryBuilder | Run 'q

text \<open>
  A \<^verbatim>\<open>Repository[T]\<close>: the type parameter, the runner and the metadata.
  \<^verbatim>\<open>NewRepository\<close> builds it from the metadata of \<open>T\<close>, whatever \<open>T\<close> resolves.
\<close>

record 'q Repository =
  elemType :: rtype
  runner :: "'q \<Rightarrow> error + row list"
  meta :: entityMetadata

definition NewRepository :: "rtype \<Rightarrow> ('q \<Rightarrow> error + row list) \<Rightarrow> 'q Repository outcome" where
  "NewRepository T rn =
     (case parseTags T of
        Returns m \<Rightarrow> Returns \<lparr>elemType = T, runner = rn, meta = m\<rparr>
      | Fails err \<Rightarrow> Fails err
      | Panics \<Rightarrow> Panics)"

section \<open>The repository\<close>

text \<open>
  The loop of \<^verbatim>\<open>mapNodeToStruct\<close> over the mappings. Go ranges over the map in an
  unspecified order; the model takes the order of the list. The error result of
  \<^verbatim>\<open>mapNodeToStruct\<close> is always nil, so its outcome is the entity or a panic.
\<close>

fun mapFields :: "val node \<Rightarrow> entity \<Rightarrow> (string \<times> string) list \<Rightarrow> entity outcome" where
  "mapFields node ent [] = Returns ent"
| "mapFields node ent ((fieldName, propName) # rest) =
     (case FieldByName ent fieldName of
        Panics \<Rightarrow> Panics
      | Fails e \<Rightarrow> Fails e
      | Returns None \<Rightarrow> mapFields node ent rest
      | Returns (Some field) \<Rightarrow>
          if \<not> CanSet field then mapFields node ent rest
          else
            (case map_of (Props node) propName of
               None \<Rightarrow> mapFields node ent rest
             | Some propValue \<Rightarrow>
                 (case SetField ent fieldName propValue of
                    Returns ent' \<Rightarrow> mapFields node ent' rest
                  | Panics \<Rightarrow> Panics
                  | Fails e \<Rightarrow> Fails e)))"

definition mapNodeToStruct :: "val node \<Rightarrow> entity \<Rightarrow> entityMetadata \<Rightarrow> entity outcome" where
  "mapNodeToStruct node ent m = mapFields node ent (Mappings m)"

text \<open>\<^verbatim>\<open>val.FieldByName(name).Interface()\<close>, as \<^verbatim>\<open>Save\<close> reads a field.\<close>

definition FieldInterface :: "entity \<Rightarrow> string \<Rightarrow> val outcome" where
  "FieldInterface ent name =
     (case FieldByName ent name of
        Returns field \<Rightarrow> Interface field
      | Panics \<Rightarrow> Panics
      | Fails e \<Rightarrow> Fails e)"

text \<open>
  The setProps loop of \<^verbatim>\<open>Save\<close>, over the mappings in the order of the list (Go
  leaves the order open; it matters only when two fields share a property name, the
  later assignment replacing the earlier). The entity of \<^verbatim>\<open>Save\<close> is what a
  non-nil pointer points to.
\<close>

fun setPropsOf :: "entity \<Rightarrow> string \<Rightarrow> (string \<times> string) list \<Rightarrow> (string \<times> val) list
    \<Rightarrow> (string \<times> val) list outcome" where
  "setPropsOf ent pkField [] setProps = Returns setProps"
| "setPropsOf ent pkField ((fieldName, propName) # rest) setProps =
     (if fieldName \<noteq> pkField then
        (case FieldInterface ent fieldName of
           Returns x \<Rightarrow>
             setPropsOf ent pkField rest (AList.update (''n.'' @ propName) x setProps)
         | Panics \<Rightarrow> Panics
         | Fails e \<Rightarrow> Fails e)
      else setPropsOf ent pkField rest setProps)"

definition Save :: "(QueryBuilder \<Rightarrow> error + 'q) \<Rightarrow> 'q Repository \<Rightarrow> entity
    \<Rightarrow> 'q call list \<times> unit outcome" where
  "Save bld r ent =
     (case FieldInterface ent (PKField (meta r)) of
        Returns pkValue \<Rightarrow>
          (case setPropsOf ent (PKField (meta r)) (Mappings (meta r)) [] of
             Returns setProps \<Rightarrow>
               (let qb = [Merge (WithProperties (N ''n'' (Label (meta r)))
                                   [(PKProp (meta r), pkValue)]),
                          SetClause setProps, Return [''n'']] in
                case bld qb of
                  Inl err \<Rightarrow> ([Build qb], Fails err)
                | Inr query \<Rightarrow>
                    ([Build qb, Run query],
                     case runner r query of Inl err \<Rightarrow> Fails err | Inr _ \<Rightarrow> Returns ()))
           | Panics \<Rightarrow> ([], Panics)
           | Fails e \<Rightarrow> ([], Fails e))
      | Panics \<Rightarrow> ([], Panics)
      | Fails e \<Rightarrow> ([], Fails e))"

definition FindByID :: "(QueryBuilder \<Rightarrow> error + 'q) \<Rightarrow> 'q Repository \<Rightarrow> val
    \<Rightarrow> 'q call list \<times> entity outcome" where
  "FindByID bld r ident =
     (let qb = [Match (WithProperties (N ''n'' (Label (meta r))) [(PKProp (meta r), ident)]),
                Return [''n'']] in
      case bld qb of
        Inl err \<Rightarrow> ([Build qb], Fails err)
      | Inr query \<Rightarrow>
          ([Build qb, Run query],
           case runner r query of
             Inl err \<Rightarrow> Fails err
           | Inr records \<Rightarrow>
               if length records = 0 then Fails ErrNotFound
               else if length records > 1 then Fails (ExpectedOneRecord (length records))
               else
                 (case Get (hd records) ''n'' of
                    None \<Rightarrow> Fails ReturnValueMissing
                  | Some nodeValue \<Rightarrow>
                      (case nodeValue of
                         VNode node \<Rightarrow>
                           mapNodeToStruct node (New (elemType r)) (meta r)
                       | _ \<Rightarrow> Fails ReturnValueNotNode))))"

definition Delete :: "(QueryBuilder \<Rightarrow> error + 'q) \<Rightarrow> 'q Repository \<Rightarrow> val
    \<Rightarrow> 'q call list \<times> unit outcome" where
  "Delete bld r ident =
     (let qb = [Match (WithProperties (N ''n'' (Label (meta r))) [(PKProp (meta r), ident)]),
                DetachDelete ''n''] in
      case bld qb of
        Inl err \<Rightarrow> ([Build qb], Fails err)
      | Inr query \<Rightarrow>
          ([Build qb, Run query],
           case runner r query of Inl err \<Rightarrow> Fails err | Inr _ \<Rightarrow> Returns ()))"


text \<open>
  The loop shared by \<^verbatim>\<open>FindAll\<close> and \<^verbatim>\<open>FindByProperty\<close>: the value under
  \<^verbatim>\<open>"n"\<close> is asserted to be a node without a check, so anything else (a missing
  column gives nil) panics.
\<close>

fun mapRecords :: "'q Repository \<Rightarrow> row list \<Rightarrow> entity list outcome" where
  "mapRecords r [] = Returns []"
| "mapRecords r (record # rest) =
     (case Get record ''n'' of
        Some (VNode node) \<Rightarrow>
          (case mapNodeToStruct node (New (elemType r)) (meta r) of
             Returns ent \<Rightarrow>
               (case mapRecords r rest of
                  Returns ents \<Rightarrow> Returns (ent # ents)
                | Panics \<Rightarrow> Panics
                | Fails e \<Rightarrow> Fails e)
           | Panics \<Rightarrow> Panics
           | Fails e \<Rightarrow> Fails e)
      | _ \<Rightarrow> Panics)"

definition FindAll :: "(QueryBuilder \<Rightarrow> error + 'q) \<Rightarrow> 'q Repository
    \<Rightarrow> 'q call list \<times> entity list outcome" where
  "FindAll bld r =
     (let qb = [Match (N ''n'' (Label (meta r))), Return [''n'']] in
      case bld qb of
        Inl err \<Rightarrow> ([Build qb], Fails err)
      | Inr query \<Rightarrow>
          ([Build qb, Run query],
           case runner r query of
             Inl err \<Rightarrow> if IsErrNotFound err then Returns [] else Fails err
           | Inr records \<Rightarrow> mapRecords r records))"

definition FindByProperty :: "(QueryBuilder \<Rightarrow> error + 'q) \<Rightarrow> 'q Repository \<Rightarrow> string \<Rightarrow> val
    \<Rightarrow> 'q call list \<times> entity list outcome" where
  "FindByProperty bld r propName propValue =
     (let isMappedProperty = (\<exists>p \<in> set (map snd (Mappings (meta r))). p = propName) in
      if \<not> isMappedProperty then ([], Fails (NotMappedProperty propName (Label (meta r))))
      else
        (let qb = [Match (WithProperties (N ''n'' (Label (meta r))) [(propName, propValue)]),
                   Return [''n'']] in
         case bld qb of
           Inl err \<Rightarrow> ([Build qb], Fails err)
         | Inr query \<Rightarrow>
             ([Build qb, Run query],
              case runner r query of
                Inl err \<Rightarrow> if IsErrNotFound err then Returns [] else Fails err
              | Inr records \<Rightarrow> mapRecords r records)))"

text \<open>
  The hydration of one record, written three times in the source (\<^verbatim>\<open>Find\<close>,
  \<^verbatim>\<open>FindOne\<close>, \<^verbatim>\<open>FindFirst\<close>). First the scan of the values for a node.
\<close>

fun firstNode :: "val list \<Rightarrow> val node option" where
  "firstNode [] = None"
| "firstNode (v # vs) = (case v of VNode node \<Rightarrow> Some node | _ \<Rightarrow> firstNode vs)"

text \<open>The scan of the keys for one property: \<open>(foundValue, found)\<close>.\<close>

definition lookupColumn :: "row \<Rightarrow> string \<Rightarrow> val \<times> bool" where
  "lookupColumn record neo4jPropName =
     (case find (\<lambda>key. key = neo4jPropName \<or> HasSuffix key (''.'' @ neo4jPropName))
             (Keys record) of
        None \<Rightarrow> (VNil, False)
      | Some key \<Rightarrow> (case Get record key of None \<Rightarrow> (VNil, False) | Some x \<Rightarrow> (x, True)))"

fun mapColumns :: "row \<Rightarrow> entity \<Rightarrow> (string \<times> string) list \<Rightarrow> entity outcome" where
  "mapColumns record ent [] = Returns ent"
| "mapColumns record ent ((goFieldName, neo4jPropName) # rest) =
     (case FieldByName ent goFieldName of
        Panics \<Rightarrow> Panics
      | Fails e \<Rightarrow> Fails e
      | Returns field \<Rightarrow>
          (case lookupColumn record neo4jPropName of
             (foundValue, found) \<Rightarrow>
               if found \<and> field \<noteq> None \<and> CanSet (the field) then
                 if foundValue \<noteq> VNil then
                   (case SetField ent goFieldName foundValue of
                      Returns ent' \<Rightarrow> mapColumns record ent' rest
                    | Panics \<Rightarrow> Panics
                    | Fails e \<Rightarrow> Fails e)
                 else mapColumns record ent rest
               else mapColumns record ent rest))"

definition hydrate :: "'q Repository \<Rightarrow> row \<Rightarrow> entity outcome" where
  "hydrate r record =
     (case firstNode (Values record) of
        Some node \<Rightarrow> mapNodeToStruct node (New (elemType r)) (meta r)
      | None \<Rightarrow> mapColumns record (New (elemType r)) (Mappings (meta r)))"

fun hydrateAll :: "'q Repository \<Rightarrow> row list \<Rightarrow> entity list outcome" where
  "hydrateAll r [] = Returns []"
| "hydrateAll r (record # rest) =
     (case hydrate r record of
        Returns ent \<Rightarrow>
          (case hydrateAll r rest of
             Returns ents \<Rightarrow> Returns (ent # ents)
           | Panics \<Rightarrow> Panics
           | Fails e \<Rightarrow> Fails e)
      | Panics \<Rightarrow> Panics
      | Fails e \<Rightarrow> Fails e)"

definition Find :: "(QueryBuilder \<Rightarrow> error + 'q) \<Rightarrow> 'q Repository \<Rightarrow> QueryBuilder
    \<Rightarrow> 'q call list \<times> entity list outcome" where
  "Find bld r qb =
     (case bld qb of
        Inl err \<Rightarrow> ([Build qb], Fails (CouldNotBuild err))
      | Inr query \<Rightarrow>
          ([Build qb, Run query],
           case runner r query of
             Inl err \<Rightarrow> if IsErrNotFound err then Returns [] else Fails err
           | Inr records \<Rightarrow> hydrateAll r records))"

definition FindOne :: "(QueryBuilder \<Rightarrow> error + 'q) \<Rightarrow> 'q Repository \<Rightarrow> QueryBuilder
    \<Rightarrow> 'q call list \<times> entity outcome" where
  "FindOne bld r qb =
     (case bld qb of
        Inl err \<Rightarrow> ([Build qb], Fails (CouldNotBuild err))
      | Inr query \<Rightarrow>
          ([Build qb, Run query],
           case runner r query of
             Inl err \<Rightarrow> Fails err
           | Inr records \<Rightarrow>
               if length records = 0 then Fails ErrNotFound
               else if length records > 1 then Fails (ExpectedOneRecord (length records))
               else hydrate r (hd records)))"

definition FindFirst :: "(QueryBuilder \<Rightarrow> error + 'q) \<Rightarrow> 'q Repository \<Rightarrow> QueryBuilder
    \<Rightarrow> 'q call list \<times> entity outcome" where
  "FindFirst bld r qb =
     (case bld qb of
        Inl err \<Rightarrow> ([Build qb], Fails (CouldNotBuild err))
      | Inr query \<Rightarrow>
          ([Build qb, Run query],
           case runner r query of
             Inl err \<Rightarrow> Fails err
           | Inr records \<Rightarrow>
               if length records = 0 then Fails ErrNotFound
               else hydrate r (hd records)))"

text \<open>The tail shared by the three counting operations, from the first record on.\<close>

definition countOf :: "row list \<Rightarrow> 64 word outcome" where
  "countOf records =
     (if length records = 0 then Returns 0
      else
        (case Get (hd records) ''count'' of
           None \<Rightarrow> Fails CountValueNotFound
         | Some countValue \<Rightarrow>
             (case countValue of VInt64 c \<Rightarrow> Returns c | _ \<Rightarrow> Panics)))"

definition Count :: "(QueryBuilder \<Rightarrow> error + 'q) \<Rightarrow> 'q Repository
    \<Rightarrow> 'q call list \<times> 64 word outcome" where
  "Count bld r =
     (let qb = [Match (N ''n'' (Label (meta r))), Return [''count(n) AS count'']] in
      case bld qb of
        Inl err \<Rightarrow> ([Build qb], Fails (CouldNotBuildCount err))
      | Inr query \<Rightarrow>
          ([Build qb, Run query],
           case runner r query of
             Inl err \<Rightarrow> Fails err
           | Inr records \<Rightarrow> countOf records))"

definition CountByProperty :: "(QueryBuilder \<Rightarrow> error + 'q) \<Rightarrow> 'q Repository \<Rightarrow> string \<Rightarrow> val
    \<Rightarrow> 'q call list \<times> 64 word outcome" where
  "CountByProperty bld r propName propValue =
     (let qb = [Match (WithProperties (N ''n'' (Label (meta r))) [(propName, propValue)]),
                Return [''count(n) AS count'']] in
      case bld qb of
        Inl err \<Rightarrow> ([Build qb], Fails (CouldNotBuildCount err))
      | Inr query \<Rightarrow>
          ([Build qb, Run query],
           case runner r query of
             Inl err \<Rightarrow> Fails err
           | Inr records \<Rightarrow> countOf records))"

definition CountWithQuery :: "(QueryBuilder \<Rightarrow> error + 'q) \<Rightarrow> 'q Repository \<Rightarrow> QueryBuilder
    \<Rightarrow> 'q call list \<times> 64 word outcome" where
  "CountWithQuery bld r qb =
     (case bld qb of
        Inl err \<Rightarrow> ([Build qb], Fails (CouldNotBuildCount err))
      | Inr query \<Rightarrow>
          ([Build qb, Run query],
           case runner r query of
             Inl err \<Rightarrow> if IsErrNotFound err then Returns 0 else Fails err
           | Inr records \<Rightarrow> countOf records))"

section \<open>The persistence manager: generic graph queries\<close>

datatype GraphNode =
  GraphNode (ID: string) (NodeLabels: "string list") (Properties: "(string \<times> val) list")

datatype Edge =
  Edge (EdgeID: string) (Source: string) (Target: string) (EdgeType: string)
    (EdgeProperties: "(string \<times> val) list")

record GraphResult =
  Nodes :: "GraphNode list"
  Edges :: "Edge list"

text \<open>
  The state of the two nested loops of \<^verbatim>\<open>FindGraph\<close>: the graph built so far and
  the two maps of identifiers already seen, each as the set of its true keys.
\<close>

record collected =
  graph :: GraphResult
  seenNodeIDs :: "string set"
  seenEdgeIDs :: "string set"

definition collectValue :: "collected \<Rightarrow> val \<Rightarrow> collected" where
  "collectValue st x =
     (case x of
        VNode v \<Rightarrow>
          if ElementId v \<notin> seenNodeIDs st then
            st\<lparr>graph := (graph st)\<lparr>Nodes := Nodes (graph st) @
                    [GraphNode (ElementId v) (Labels v) (Props v)]\<rparr>,
               seenNodeIDs := insert (ElementId v) (seenNodeIDs st)\<rparr>
          else st
      | VRelationship v \<Rightarrow>
          if RelElementId v \<notin> seenEdgeIDs st then
            st\<lparr>graph := (graph st)\<lparr>Edges := Edges (graph st) @
                    [Edge (RelElementId v) (StartElementId v) (EndElementId v) (RelType v)
                       (RelProps v)]\<rparr>,
               seenEdgeIDs := insert (RelElementId v) (seenEdgeIDs st)\<rparr>
          else st
      | _ \<Rightarrow> st)"

definition collectRecords :: "collected \<Rightarrow> row list \<Rightarrow> collected" where
  "collectRecords st records = foldl (\<lambda>st record. foldl collectValue st (Values record)) st records"

definition FindGraph :: "(QueryBuilder \<Rightarrow> error + 'q) \<Rightarrow> ('q \<Rightarrow> error + row list) \<Rightarrow> QueryBuilder
    \<Rightarrow> 'q call list \<times> GraphResult outcome" where
  "FindGraph bld pmRunner qb =
     (case bld qb of
        Inl err \<Rightarrow> ([Build qb], Fails (CouldNotBuild err))
      | Inr query \<Rightarrow>
          ([Build qb, Run query],
           case pmRunner query of
             Inl err \<Rightarrow> Fails err
           | Inr records \<Rightarrow>
               if length records = 0 then Fails ErrNotFound
               else
                 Returns (graph (collectRecords
                   \<lparr>graph = \<lparr>Nodes = [], Edges = []\<rparr>, seenNodeIDs = {}, seenEdgeIDs = {}\<rparr>
                   records))))"

section \<open>Vocabulary of the properties\<close>

subsection \<open>Field annotations\<close>

text \<open>
  What an annotation says, read off the tag independently of the parsing loop: the field
  opts in when its tag is not empty, it is marked primary key when some part is \<open>pk\<close>,
  and its property name is what follows \<open>property:\<close> in the last part that starts so.
\<close>

definition tagParts :: "struct_field \<Rightarrow> string list" where
  "tagParts f = Split (CrudTag f) CHR '',''"

definition optedIn :: "struct_field \<Rightarrow> bool" where
  "optedIn f \<longleftrightarrow> CrudTag f \<noteq> []"

definition markedPk :: "struct_field \<Rightarrow> bool" where
  "markedPk f \<longleftrightarrow> optedIn f \<and> ''pk'' \<in> set (tagParts f)"

definition propertyName :: "struct_field \<Rightarrow> string" where
  "propertyName f =
     (case filter (\<lambda>p. HasPrefix p ''property:'') (tagParts f) of
        [] \<Rightarrow> []
      | q # qs \<Rightarrow> TrimPrefix (last (q # qs)) ''property:'')"

definition lacksProperty :: "struct_field \<Rightarrow> bool" where
  "lacksProperty f \<longleftrightarrow> optedIn f \<and> propertyName f = []"

definition pkOf :: "struct_field list \<Rightarrow> string \<times> string \<Rightarrow> string \<times> string" where
  "pkOf fs d = (case filter markedPk fs of [] \<Rightarrow> d
                | g # gs \<Rightarrow> (Name (last (g # gs)), propertyName (last (g # gs))))"

definition mappingsOf :: "struct_field list \<Rightarrow> (string \<times> string) list \<Rightarrow> (string \<times> string) list" where
  "mappingsOf fs al = foldl (\<lambda>al f. AList.update (Name f) (propertyName f) al) al (filter optedIn fs)"

definition structOf :: "rtype \<Rightarrow> (string \<times> struct_field list) option" where
  "structOf typ =
     (case typ of
        Struct n flds \<Rightarrow> Some (n, flds)
      | Ptr (Struct n flds) \<Rightarrow> Some (n, flds)
      | _ \<Rightarrow> None)"

text \<open>The two entities of the examples, and a type with two fields marked primary key.\<close>

definition userFields :: "struct_field list" where
  "userFields =
     [StructField ''UserID'' [] TString ''pk,property:userId'',
      StructField ''Name'' [] TString ''property:name'']"

definition accountFields :: "struct_field list" where
  "accountFields =
     [StructField ''ID'' [] TString ''pk,property:id'',
      StructField ''Email'' [] TString ''pk,property:email'']"

subsection \<open>Fields of a struct value\<close>

text \<open>
  What a reader of the fields of a struct value sees of the field called \<open>name\<close>: its
  value, its declaration, whether it may be set, and whether it can hold a given value.
  \<open>zeroFields\<close> are the fields of a new struct.
\<close>

definition valueOf :: "(struct_field \<times> val) list \<Rightarrow> string \<Rightarrow> val option" where
  "valueOf sv name = map_option snd (lookupField sv name)"

definition fieldDecl :: "(struct_field \<times> val) list \<Rightarrow> string \<Rightarrow> struct_field option" where
  "fieldDecl sv name = map_option fst (lookupField sv name)"

definition settable :: "(struct_field \<times> val) list \<Rightarrow> string \<Rightarrow> bool" where
  "settable sv name \<longleftrightarrow> (case fieldDecl sv name of Some f \<Rightarrow> PkgPath f = [] | None \<Rightarrow> False)"

definition fits :: "(struct_field \<times> val) list \<Rightarrow> string \<Rightarrow> val \<Rightarrow> bool" where
  "fits sv name x \<longleftrightarrow>
     (case fieldDecl sv name of
        Some f \<Rightarrow> (case TypeOf x of Some t \<Rightarrow> AssignableTo t (Type f) | None \<Rightarrow> False)
      | None \<Rightarrow> False)"

definition zeroFields :: "struct_field list \<Rightarrow> (struct_field \<times> val) list" where
  "zeroFields flds = map (\<lambda>f. (f, zero (Type f))) flds"

text \<open>
  The same asked of an entity, which has fields only when it is a struct: the value
  of a field, and the declarations of its fields.
\<close>

definition fieldValue :: "entity \<Rightarrow> string \<Rightarrow> val option" where
  "fieldValue ent name =
     (case ent of StructValue sv \<Rightarrow> valueOf sv name | NonStructValue \<Rightarrow> None)"

definition fieldsOf :: "entity \<Rightarrow> struct_field list" where
  "fieldsOf ent = (case ent of StructValue sv \<Rightarrow> map fst sv | NonStructValue \<Rightarrow> [])"

definition structFields :: "rtype \<Rightarrow> struct_field list" where
  "structFields T = (case T of Struct n flds \<Rightarrow> flds | _ \<Rightarrow> [])"

definition structOf' :: "rtype \<Rightarrow> (string \<times> struct_field list) option" where
  "structOf' T = (case T of Struct n flds \<Rightarrow> Some (n, flds) | _ \<Rightarrow> None)"

definition asEntity :: "(struct_field \<times> val) list outcome \<Rightarrow> entity outcome" where
  "asEntity out =
     (case out of Returns sv \<Rightarrow> Returns (StructValue sv) | Panics \<Rightarrow> Panics | Fails e \<Rightarrow> Fails e)"

text \<open>The same questions asked of the struct type, before any value exists.\<close>

definition declared :: "struct_field list \<Rightarrow> string \<Rightarrow> struct_field option" where
  "declared flds name = find (\<lambda>d. Name d = name) flds"

definition exported :: "struct_field list \<Rightarrow> string \<Rightarrow> bool" where
  "exported flds name \<longleftrightarrow> (case declared flds name of Some d \<Rightarrow> PkgPath d = [] | None \<Rightarrow> False)"

definition zeroValue :: "struct_field list \<Rightarrow> string \<Rightarrow> val option" where
  "zeroValue flds name = map_option (\<lambda>d. zero (Type d)) (declared flds name)"

definition accepts :: "struct_field list \<Rightarrow> string \<Rightarrow> val \<Rightarrow> bool" where
  "accepts flds name x \<longleftrightarrow>
     (case declared flds name of
        Some d \<Rightarrow> (case TypeOf x of Some t \<Rightarrow> AssignableTo t (Type d) | None \<Rightarrow> False)
      | None \<Rightarrow> False)"

text \<open>
  The common shape of the two hydration loops: for each mapping whose field can be set,
  a source gives the value to store or nothing. The proofs reduce both loops to it.
\<close>

fun assignFields :: "(string \<Rightarrow> val option) \<Rightarrow> (struct_field \<times> val) list \<Rightarrow> (string \<times> string) list
    \<Rightarrow> (struct_field \<times> val) list outcome" where
  "assignFields src sv [] = Returns sv"
| "assignFields src sv ((f, p) # rest) =
     (if settable sv f then
        (case src p of
           None \<Rightarrow> assignFields src sv rest
         | Some x \<Rightarrow> if fits sv f x then assignFields src (store sv f x) rest else Panics)
      else assignFields src sv rest)"

text \<open>
  The column a projection offers for a property: the first whose name is the property
  or ends in a dot and the property; a nil value counts as nothing.
\<close>

definition matches :: "string \<Rightarrow> string \<Rightarrow> bool" where
  "matches p key \<longleftrightarrow> key = p \<or> HasSuffix key (''.'' @ p)"

definition discovered :: "row \<Rightarrow> string \<Rightarrow> val option" where
  "discovered record p =
     (case find (\<lambda>kv. matches p (fst kv)) record of
        None \<Rightarrow> None
      | Some kv \<Rightarrow> if snd kv \<noteq> VNil then Some (snd kv) else None)"

text \<open>The value each field has after the loop, read off the mappings.\<close>

definition populated :: "(string \<Rightarrow> val option) \<Rightarrow> (struct_field \<times> val) list \<Rightarrow> (string \<times> string) list
    \<Rightarrow> string \<Rightarrow> val option" where
  "populated src sv M name =
     (case map_of M name of
        None \<Rightarrow> valueOf sv name
      | Some p \<Rightarrow>
          if settable sv name then
            (case src p of None \<Rightarrow> valueOf sv name | Some x \<Rightarrow> Some x)
          else valueOf sv name)"

subsection \<open>Example repositories\<close>

text \<open>
  A runner that finds nothing, the \<open>User\<close> repository of the examples, and a
  repository for a struct with an unexported mapped field.
\<close>

definition noRecords :: "unit \<Rightarrow> error + row list" where
  "noRecords q = Inr []"

definition userMeta :: entityMetadata where
  "userMeta = \<lparr>Label = ''User'', PKField = ''UserID'', PKProp = ''userId'',
                 Mappings = [(''UserID'', ''userId''), (''Name'', ''name'')]\<rparr>"

definition userRepo :: "unit Repository" where
  "userRepo = \<lparr>elemType = Struct ''User'' userFields, runner = noRecords, meta = userMeta\<rparr>"

definition aliceNode :: "val node" where
  "aliceNode = Node ''4:abc:1'' [''User''] [(''userId'', VString ''u1''), (''name'', VString ''Alice'')]"

definition memberFields :: "struct_field list" where
  "memberFields =
     [StructField ''ID'' [] TString ''pk,property:id'',
      StructField ''name'' ''models'' TString ''property:name'']"

definition memberMeta :: entityMetadata where
  "memberMeta = \<lparr>Label = ''Member'', PKField = ''ID'', PKProp = ''id'',
                   Mappings = [(''ID'', ''id''), (''name'', ''name'')]\<rparr>"

definition memberRepo :: "unit Repository" where
  "memberRepo = \<lparr>elemType = Struct ''Member'' memberFields, runner = noRecords, meta = memberMeta\<rparr>"

subsection \<open>Rows and the records made of them\<close>

text \<open>
  The values a row offers for the mapped properties: the bag of its first node, or its
  matching columns when it holds no node.
\<close>

definition rowSource :: "row \<Rightarrow> string \<Rightarrow> val option" where
  "rowSource rw = (case firstNode (Values rw) of Some node \<Rightarrow> map_of (Props node) | None \<Rightarrow> discovered rw)"

text \<open>
  A row of the result and the record an operation made of it: the row at a position
  of the result of \<open>Find\<close> with the record at the same position, the single row of
  \<open>FindOne\<close>, or the first row of \<open>FindFirst\<close>.
\<close>

definition hydratedBy :: "(QueryBuilder \<Rightarrow> error + 'q) \<Rightarrow> 'q Repository \<Rightarrow> QueryBuilder \<Rightarrow> row \<Rightarrow> entity \<Rightarrow> bool" where
  "hydratedBy bld r qb rw e \<longleftrightarrow>
     (\<exists>q records. bld qb = Inr q \<and> runner r q = Inr records \<and>
        ((\<exists>es i. snd (Find bld r qb) = Returns es \<and> i < length records \<and> i < length es \<and>
                 rw = records ! i \<and> e = es ! i) \<or>
         (snd (FindOne bld r qb) = Returns e \<and> records = [rw]) \<or>
         (snd (FindFirst bld r qb) = Returns e \<and> (\<exists>rest. records = rw # rest))))"

subsection \<open>Example collaborators\<close>

text \<open>A builder that always succeeds, and runners answering with fixed records.\<close>

definition buildOk :: "QueryBuilder \<Rightarrow> error + unit" where
  "buildOk qb = Inr ()"

definition aliceRecords :: "unit \<Rightarrow> error + row list" where
  "aliceRecords q = Inr [[(''n'', VNode aliceNode)]]"

definition twinRecords :: "unit \<Rightarrow> error + row list" where
  "twinRecords q = Inr [[(''n'', VNode aliceNode)], [(''n'', VNode aliceNode)]]"

definition bobRecords :: "unit \<Rightarrow> error + row list" where
  "bobRecords q = Inr [[(''u.name'', VString ''Bob'')], [(''n'', VNode aliceNode)]]"

text \<open>
  A row whose first column is a plain value and whose next two columns are nodes, and
  a row with a node for the \<open>Member\<close> struct, whose field \<open>name\<close> is not exported.
\<close>

definition mixedRecords :: "unit \<Rightarrow> error + row list" where
  "mixedRecords q =
     Inr [[(''name'', VString ''Zed''), (''u'', VNode aliceNode),
           (''v'', VNode (Node ''4:abc:2'' [''User'']
                            [(''userId'', VString ''u2''), (''name'', VString ''Bea'')]))]]"

definition memberNode :: "val node" where
  "memberNode = Node ''4:abc:7'' [''Member''] [(''id'', VString ''m1''), (''name'', VString ''Alice'')]"

definition memberRecords :: "unit \<Rightarrow> error + row list" where
  "memberRecords q = Inr [[(''m'', VNode memberNode)]]"

subsection \<open>The graph under construction\<close>

text \<open>
  The loop invariant of \<open>FindGraph\<close>: identifiers occur once in each list and the two
  seen-sets are exactly the identifiers listed. \<open>nodeOf\<close> and \<open>edgeOf\<close> are the
  output elements made from a value, \<open>drawnFrom\<close> says every element listed was made
  from a value of the given set, and \<open>covers\<close> that the identifier of a value is seen.
\<close>

definition deduplicated :: "collected \<Rightarrow> bool" where
  "deduplicated st \<longleftrightarrow>
     distinct (map ID (Nodes (graph st))) \<and> ID ` set (Nodes (graph st)) = seenNodeIDs st \<and>
     distinct (map EdgeID (Edges (graph st))) \<and> EdgeID ` set (Edges (graph st)) = seenEdgeIDs st"

definition nodeOf :: "val node \<Rightarrow> GraphNode" where
  "nodeOf v = GraphNode (ElementId v) (Labels v) (Props v)"

definition edgeOf :: "val relationship \<Rightarrow> Edge" where
  "edgeOf v = Edge (RelElementId v) (StartElementId v) (EndElementId v) (RelType v) (RelProps v)"

definition drawnFrom :: "val set \<Rightarrow> collected \<Rightarrow> bool" where
  "drawnFrom X st \<longleftrightarrow>
     set (Nodes (graph st)) \<subseteq> {nodeOf v |v. VNode v \<in> X} \<and>
     set (Edges (graph st)) \<subseteq> {edgeOf v |v. VRelationship v \<in> X}"

definition covers :: "collected \<Rightarrow> val \<Rightarrow> bool" where
  "covers st x \<longleftrightarrow>
     (case x of
        VNode v \<Rightarrow> ElementId v \<in> seenNodeIDs st
      | VRelationship v \<Rightarrow> RelElementId v \<in> seenEdgeIDs st
      | _ \<Rightarrow> True)"

definition valuesOf :: "row list \<Rightarrow> val set" where
  "valuesOf records = (\<Union>rw\<in>set records. set (Values rw))"

text \<open>
  Two records that share the node of one author, one per relationship, and a count.
\<close>

definition orwell :: "val node" where
  "orwell = Node ''4:abc:1'' [''User''] [(''name'', VString ''George Orwell''), (''userId'', VString ''author-123'')]"

definition fanOutRecords :: "unit \<Rightarrow> error + row list" where
  "fanOutRecords q =
     Inr [[(''u'', VNode orwell),
           (''r'', VRelationship (Relationship ''5:def:0'' ''4:abc:1'' ''4:abc:2'' ''WROTE'' [])),
           (''p'', VNode (Node ''4:abc:2'' [''Post''] [(''postId'', VString ''post-1984'')]))],
          [(''u'', VNode orwell),
           (''r'', VRelationship (Relationship ''5:def:1'' ''4:abc:1'' ''4:abc:3'' ''WROTE'' [])),
           (''p'', VNode (Node ''4:abc:3'' [''Post''] [(''postId'', VString ''post-farm'')]))]]"

definition countThree :: "unit \<Rightarrow> error + row list" where
  "countThree q = Inr [[(''count'', VInt64 3)]]"

subsection \<open>The upsert of \<open>Save\<close>\<close>

text \<open>
  The builder calls of \<open>Save\<close> for a key value and a SET map, and the keys the SET map
  is to have: \<open>n.\<close> and the property of every mapped field other than the key field.
\<close>

definition upsertQuery :: "entityMetadata \<Rightarrow> val \<Rightarrow> (string \<times> val) list \<Rightarrow> QueryBuilder" where
  "upsertQuery m pkValue setProps =
     [Merge (WithProperties (N ''n'' (Label m)) [(PKProp m, pkValue)]),
      SetClause setProps, Return [''n'']]"

definition setKeys :: "entityMetadata \<Rightarrow> string set" where
  "setKeys m = (\<lambda>fp. ''n.'' @ snd fp) ` {fp \<in> set (Mappings m). fst fp \<noteq> PKField m}"

text \<open>
  A struct with a second field mapped to the property of its key, and runners whose
  answers do not have the shape the repository expects: a \<open>name\<close> that is a number,
  and a count that is a string.
\<close>

definition auditFields :: "struct_field list" where
  "auditFields =
     [StructField ''ID'' [] TString ''pk,property:id'',
      StructField ''Legacy'' [] TString ''property:id'']"

definition auditMeta :: entityMetadata where
  "auditMeta = \<lparr>Label = ''Audit'', PKField = ''ID'', PKProp = ''id'',
                  Mappings = [(''ID'', ''id''), (''Legacy'', ''id'')]\<rparr>"

definition auditRepo :: "unit Repository" where
  "auditRepo = \<lparr>elemType = Struct ''Audit'' auditFields, runner = noRecords, meta = auditMeta\<rparr>"

definition mistypedRecords :: "unit \<Rightarrow> error + row list" where
  "mistypedRecords q =
     Inr [[(''n'', VNode (Node ''4:abc:9'' [''User'']
                            [(''userId'', VString ''u9''), (''name'', VInt64 42)]))]]"

definition textCount :: "unit \<Rightarrow> error + row list" where
  "textCount q = Inr [[(''count'', VString ''3'')]]"

text \<open>The repository that \<^verbatim>\<open>NewRepository[*User]\<close> makes.\<close>

definition pointerRepo :: "unit Repository" where
  "pointerRepo = \<lparr>elemType = Ptr (Struct ''User'' userFields), runner = aliceRecords, meta = userMeta\<rparr>"

text \<open>A projection whose first row has a number for the name.\<close>

definition numberRecords :: "unit \<Rightarrow> error + row list" where
  "numberRecords q = Inr [[(''u.name'', VInt64 42)], [(''u.name'', VString ''Bob'')]]"

section \<open>Metadata resolution\<close>

lemmas tag_eval = tagParts_def optedIn_def markedPk_def propertyName_def lacksProperty_def
  HasPrefix_def TrimPrefix_def structOf_def

lemma parseParts_fst: "fst (parseParts ps (b, p)) \<longleftrightarrow> b \<or> ''pk'' \<in> set ps"
  by (induction ps arbitrary: b p) auto

lemma parseParts_snd:
  "snd (parseParts ps (b, p)) =
     (case filter (\<lambda>p. HasPrefix p ''property:'') ps of
        [] \<Rightarrow> p
      | q # qs \<Rightarrow> TrimPrefix (last (q # qs)) ''property:'')"
  by (induction ps arbitrary: b p) (auto split: list.splits)

lemma parseParts_field:
  "parseParts (Split (CrudTag f) CHR '','') (False, []) = (''pk'' \<in> set (tagParts f), propertyName f)"
  using parseParts_fst[of "tagParts f" False "[]"] parseParts_snd[of "tagParts f" False "[]"]
  by (simp add: tagParts_def propertyName_def prod_eq_iff)

lemma parseFields_fails:
  "find lacksProperty fs = Some g \<Longrightarrow> parseFields fs m = Inl (MissingPropertyTag (Name g))"
  by (induction fs arbitrary: m)
     (auto simp: parseParts_field lacksProperty_def optedIn_def split: if_splits)

lemma parseFields_succeeds:
  "find lacksProperty fs = None \<Longrightarrow>
     parseFields fs m =
       Inr (m\<lparr>PKField := fst (pkOf fs (PKField m, PKProp m)),
              PKProp := snd (pkOf fs (PKField m, PKProp m)),
              Mappings := mappingsOf fs (Mappings m)\<rparr>)"
proof (induction fs arbitrary: m)
  case Nil
  then show ?case by (simp add: pkOf_def mappingsOf_def)
next
  case (Cons f fs)
  then show ?case
    apply (auto simp: parseParts_field lacksProperty_def optedIn_def markedPk_def pkOf_def mappingsOf_def split: if_splits list.splits)
    done
qed

lemma dom_mappingsOf:
  "fst ` set (mappingsOf fs al) = fst ` set al \<union> Name ` {f \<in> set fs. optedIn f}"
  unfolding mappingsOf_def
  by (induction fs arbitrary: al) (auto simp: AList.dom_update)

lemma parseTagsFromType_nil:
  "parseTagsFromType NilType = Panics" "parseTagsFromType (Ptr NilType) = Panics"
  by (simp_all add: parseTagsFromType_def)

lemma parseTagsFromType_not_struct:
  "structOf typ = None \<Longrightarrow> typ \<noteq> NilType \<Longrightarrow> typ \<noteq> Ptr NilType \<Longrightarrow>
     \<exists>n. parseTagsFromType typ = Fails (NotAStruct n)"
  by (auto simp: structOf_def parseTagsFromType_def split: rtype.splits)

lemma parseTagsFromType_Returns_struct:
  "parseTagsFromType typ = Returns m \<Longrightarrow> \<exists>n flds. structOf typ = Some (n, flds)"
  by (auto simp: structOf_def parseTagsFromType_def split: rtype.splits)

lemma parseTagsFromType_struct:
  "structOf typ = Some (n, flds) \<Longrightarrow>
     parseTagsFromType typ =
       (case parseFields flds \<lparr>Label = n, PKField = [], PKProp = [], Mappings = []\<rparr> of
          Inl e \<Rightarrow> Fails e
        | Inr m \<Rightarrow> if PKField m = [] then Fails (NoPrimaryKey n) else Returns m)"
  by (auto simp: structOf_def parseTagsFromType_def split: rtype.splits)

lemma pkOf_Nil: "filter markedPk flds = [] \<Longrightarrow> pkOf flds d = d"
  by (simp add: pkOf_def)

lemma pkOf_last:
  "filter markedPk flds \<noteq> [] \<Longrightarrow>
     pkOf flds d = (Name (last (filter markedPk flds)), propertyName (last (filter markedPk flds)))"
  by (cases "filter markedPk flds") (simp_all add: pkOf_def)

lemma last_filter_in: "filter P xs \<noteq> [] \<Longrightarrow> last (filter P xs) \<in> set xs \<and> P (last (filter P xs))"
  using last_in_set[of "filter P xs"] by auto

lemma find_lacks_None: "find lacksProperty flds = None \<longleftrightarrow> (\<forall>f\<in>set flds. optedIn f \<longrightarrow> propertyName f \<noteq> [])"
  by (auto simp: find_None_iff lacksProperty_def)

lemma set_alist_update: "set (AList.update k v al) \<subseteq> insert (k, v) (set al)"
  by (induction al) auto

lemma values_mappingsOf:
  "(\<forall>f\<in>set flds. optedIn f \<longrightarrow> propertyName f \<noteq> []) \<Longrightarrow> (\<forall>kv\<in>set al. snd kv \<noteq> []) \<Longrightarrow> kv \<in> set (mappingsOf flds al) \<Longrightarrow> snd kv \<noteq> []"
  unfolding mappingsOf_def
proof (induction flds arbitrary: al)
  case Nil then show ?case by simp
next
  case (Cons f flds)
  show ?case
  proof (cases "optedIn f")
    case True
    have "\<forall>kv\<in>set (AList.update (Name f) (propertyName f) al). snd kv \<noteq> []"
      using Cons.prems(1,2) True set_alist_update[of "Name f" "propertyName f" al] by auto
    then show ?thesis using Cons True by auto
  next
    case False then show ?thesis using Cons by auto
  qed
qed

lemma distinct_mappingsOf:
  "distinct (map fst al) \<Longrightarrow> distinct (map fst (mappingsOf flds al))"
  unfolding mappingsOf_def
  by (induction flds arbitrary: al) (auto simp: AList.distinct_update)

lemma map_of_mappingsOf:
  "distinct (map Name flds) \<Longrightarrow> f \<in> set flds \<Longrightarrow> optedIn f \<Longrightarrow>
     map_of (mappingsOf flds al) (Name f) = Some (propertyName f)"
  unfolding mappingsOf_def
proof (induction flds arbitrary: al)
  case Nil then show ?case by simp
next
  case (Cons g flds)
  have keep: "\<And>al'. Name f \<notin> Name ` set flds \<Longrightarrow>
       map_of (foldl (\<lambda>al f. AList.update (Name f) (propertyName f) al) al' (filter optedIn flds)) (Name f)
         = map_of al' (Name f)"
  proof -
    fix al' :: "(string \<times> string) list"
    assume "Name f \<notin> Name ` set flds"
    then show "map_of (foldl (\<lambda>al f. AList.update (Name f) (propertyName f) al) al' (filter optedIn flds)) (Name f)
         = map_of al' (Name f)"
      by (induction flds arbitrary: al') (auto simp: AList.update_conv')
  qed
  show ?case
  proof (cases "f = g")
    case True
    then have "Name f \<notin> Name ` set flds" using Cons.prems(1) by auto
    then show ?thesis using True Cons.prems(3) keep by (simp add: AList.update_conv')
  next
    case False
    then show ?thesis using Cons by auto
  qed
qed

text \<open>Resolved mappings bind each field name once, as the Go map does.\<close>

lemma parseFields_distinct:
  "parseFields flds m0 = Inr m \<Longrightarrow> distinct (map fst (Mappings m0)) \<Longrightarrow>
     distinct (map fst (Mappings m))"
proof (cases "find lacksProperty flds")
  case None
  assume "parseFields flds m0 = Inr m" "distinct (map fst (Mappings m0))"
  then show ?thesis
    using parseFields_succeeds[OF None, of m0] by (auto simp: distinct_mappingsOf)
next
  case (Some g)
  assume "parseFields flds m0 = Inr m"
  then show ?thesis using parseFields_fails[OF Some, of m0] by simp
qed

lemma parseTagsFromType_distinct:
  assumes "parseTagsFromType typ = Returns m"
  shows "distinct (map fst (Mappings m))"
proof -
  obtain n flds where st: "structOf typ = Some (n, flds)"
    using parseTagsFromType_Returns_struct[OF assms] by blast
  have "parseFields flds \<lparr>Label = n, PKField = [], PKProp = [], Mappings = []\<rparr> = Inr m"
    using parseTagsFromType_struct[OF st] assms
    by (auto split: sum.splits if_splits)
  then show ?thesis by (rule parseFields_distinct) simp
qed

text \<open>
  Claim C6, as the code has it. Resolution is given a \<^verbatim>\<open>reflect.Type\<close> that is not
  nil, and looks at a struct type or a pointer to one.
  \<^item> Any other type fails with the not-a-struct error.
  \<^item> If some opted-in field lacks a property name, resolution fails, naming such a field.
  \<^item> If no field is marked primary key, resolution fails; with every property name in
    place the error is the missing-primary-key error.
  \<^item> Otherwise (one \<^emph>\<open>or more\<close> fields marked primary key, field names not empty)
    resolution succeeds: the label is the name of the type, the primary key is the
    \<^emph>\<open>last\<close> marked field in declaration order with its property name, and the mapping
    has a non-empty property name for exactly the opted-in fields, the primary key among
    them; with distinct field names each opted-in field is mapped to its own property.
  The code has no check for a second marked field.
\<close>

theorem parseTagsFromType_resolution:
  "(structOf typ = None \<and> typ \<noteq> NilType \<and> typ \<noteq> Ptr NilType \<longrightarrow>
      (\<exists>n. parseTagsFromType typ = Fails (NotAStruct n))) \<and>
   (\<forall>n flds. structOf typ = Some (n, flds) \<longrightarrow>
      ((\<exists>f\<in>set flds. lacksProperty f) \<longrightarrow>
         (\<exists>f\<in>set flds. lacksProperty f \<and>
            parseTagsFromType typ = Fails (MissingPropertyTag (Name f)))) \<and>
      (\<not> (\<exists>f\<in>set flds. markedPk f) \<longrightarrow> (\<exists>e. parseTagsFromType typ = Fails e)) \<and>
      (\<not> (\<exists>f\<in>set flds. lacksProperty f) \<and> \<not> (\<exists>f\<in>set flds. markedPk f) \<longrightarrow>
         parseTagsFromType typ = Fails (NoPrimaryKey n)) \<and>
      (\<not> (\<exists>f\<in>set flds. lacksProperty f) \<and> (\<exists>f\<in>set flds. markedPk f) \<and>
       (\<forall>f\<in>set flds. Name f \<noteq> []) \<longrightarrow>
         (\<exists>m. parseTagsFromType typ = Returns m \<and> Label m = n \<and>
              PKField m = Name (last (filter markedPk flds)) \<and>
              PKProp m = propertyName (last (filter markedPk flds)) \<and>
              fst ` set (Mappings m) = Name ` {f \<in> set flds. optedIn f} \<and>
              PKField m \<in> fst ` set (Mappings m) \<and>
              (\<forall>kv\<in>set (Mappings m). snd kv \<noteq> []) \<and>
              (distinct (map Name flds) \<longrightarrow>
                 (\<forall>f\<in>set flds. optedIn f \<longrightarrow>
                    map_of (Mappings m) (Name f) = Some (propertyName f))))))"
proof (intro conjI allI impI)
  show "\<exists>n. parseTagsFromType typ = Fails (NotAStruct n)"
    if "structOf typ = None \<and> typ \<noteq> NilType \<and> typ \<noteq> Ptr NilType"
    using that by (simp add: parseTagsFromType_not_struct)
next
  fix n flds
  assume st: "structOf typ = Some (n, flds)"
  let ?init = "\<lparr>Label = n, PKField = [], PKProp = [], Mappings = []\<rparr>"
  note eq = parseTagsFromType_struct[OF st]
  {
    assume "\<exists>f\<in>set flds. lacksProperty f"
    then obtain g where g: "find lacksProperty flds = Some g"
      by (cases "find lacksProperty flds") (auto simp: find_None_iff)
    then have "g \<in> set flds \<and> lacksProperty g"
      by (auto simp: find_Some_iff)
    moreover have "parseTagsFromType typ = Fails (MissingPropertyTag (Name g))"
      using eq parseFields_fails[OF g, of ?init] by simp
    ultimately show "\<exists>f\<in>set flds. lacksProperty f \<and>
            parseTagsFromType typ = Fails (MissingPropertyTag (Name f))" by blast
  }
  {
    assume a: "\<not> (\<exists>f\<in>set flds. lacksProperty f) \<and> \<not> (\<exists>f\<in>set flds. markedPk f)"
    then have none: "find lacksProperty flds = None" by (auto simp: find_None_iff)
    have "filter markedPk flds = []" using a by (auto simp: filter_empty_conv)
    then show "parseTagsFromType typ = Fails (NoPrimaryKey n)"
      using eq parseFields_succeeds[OF none, of ?init] by (simp add: pkOf_Nil)
  } note nopk = this
  {
    assume a: "\<not> (\<exists>f\<in>set flds. markedPk f)"
    show "\<exists>e. parseTagsFromType typ = Fails e"
    proof (cases "\<exists>f\<in>set flds. lacksProperty f")
      case True
      then obtain g where g: "find lacksProperty flds = Some g"
        by (cases "find lacksProperty flds") (auto simp: find_None_iff)
      show ?thesis using eq parseFields_fails[OF g, of ?init] by simp
    next
      case False
      then show ?thesis using nopk a by blast
    qed
  }
  {
    assume a: "\<not> (\<exists>f\<in>set flds. lacksProperty f) \<and> (\<exists>f\<in>set flds. markedPk f) \<and>
       (\<forall>f\<in>set flds. Name f \<noteq> [])"
    then have none: "find lacksProperty flds = None" by (auto simp: find_None_iff)
    have ne: "filter markedPk flds \<noteq> []" using a by (auto simp: filter_empty_conv)
    let ?g = "last (filter markedPk flds)"
    have g: "?g \<in> set flds" "markedPk ?g" using last_filter_in[OF ne] by auto
    let ?m = "?init\<lparr>PKField := Name ?g, PKProp := propertyName ?g, Mappings := mappingsOf flds []\<rparr>"
    have pf: "parseFields flds ?init = Inr ?m"
      using parseFields_succeeds[OF none, of ?init] by (simp add: pkOf_last[OF ne])
    have "Name ?g \<noteq> []" using a g by blast
    then have res: "parseTagsFromType typ = Returns ?m" using eq pf by simp
    have dom: "fst ` set (Mappings ?m) = Name ` {f \<in> set flds. optedIn f}"
      by (simp add: dom_mappingsOf)
    have "optedIn ?g" using g by (simp add: markedPk_def)
    then have pkin: "PKField ?m \<in> fst ` set (Mappings ?m)" using dom g by auto
    have vals: "\<forall>kv\<in>set (Mappings ?m). snd kv \<noteq> []"
      using values_mappingsOf[of flds "[]"] none by (auto simp: find_lacks_None)
    have mo: "distinct (map Name flds) \<longrightarrow>
                 (\<forall>f\<in>set flds. optedIn f \<longrightarrow>
                    map_of (Mappings ?m) (Name f) = Some (propertyName f))"
      using map_of_mappingsOf[of flds _ "[]"] by simp
    show "\<exists>m. parseTagsFromType typ = Returns m \<and> Label m = n \<and>
              PKField m = Name (last (filter markedPk flds)) \<and>
              PKProp m = propertyName (last (filter markedPk flds)) \<and>
              fst ` set (Mappings m) = Name ` {f \<in> set flds. optedIn f} \<and>
              PKField m \<in> fst ` set (Mappings m) \<and>
              (\<forall>kv\<in>set (Mappings m). snd kv \<noteq> []) \<and>
              (distinct (map Name flds) \<longrightarrow>
                 (\<forall>f\<in>set flds. optedIn f \<longrightarrow>
                    map_of (Mappings m) (Name f) = Some (propertyName f)))"
      apply (rule exI[of _ ?m])
      using res dom pkin vals mo by simp
  }
qed

text \<open>
  Against C6 as stated: a type with two fields marked primary key does not have exactly
  one, and resolution succeeds on it, the later field being the key. And an interface
  type is not a record, yet \<^verbatim>\<open>parseTags\<close> does not return an error for it: it hands
  the nil \<^verbatim>\<open>reflect.Type\<close> to \<^verbatim>\<open>parseTagsFromType\<close>, which panics in \<^verbatim>\<open>Kind()\<close>.
\<close>

theorem parseTagsFromType_two_keys:
  "length (filter markedPk accountFields) = 2 \<and>
   structOf NilType = None \<and> parseTags NilType = Panics \<and>
   parseTagsFromType (Struct ''Account'' accountFields) =
     Returns \<lparr>Label = ''Account'', PKField = ''Email'', PKProp = ''email'',
          Mappings = [(''ID'', ''id''), (''Email'', ''email'')]\<rparr>"
  by (simp add: accountFields_def parseTagsFromType_def parseTags_def tag_eval)

text \<open>
  The resolution theorem at concrete types: a non-struct, a pointer to the \<open>User\<close> struct
  of the examples, a field that opts in with \<open>pk\<close> alone, and a struct without a key.
\<close>

theorem parseTagsFromType_resolution_witness:
  "structOf (Other ''int64'') = None \<and> Other ''int64'' \<noteq> NilType \<and>
   Other ''int64'' \<noteq> Ptr NilType \<and>
   parseTagsFromType (Other ''int64'') = Fails (NotAStruct ''int64'') \<and>
   structOf (Ptr (Struct ''User'' userFields)) = Some (''User'', userFields) \<and>
   \<not> (\<exists>f\<in>set userFields. lacksProperty f) \<and> (\<exists>f\<in>set userFields. markedPk f) \<and>
   list_all (\<lambda>f. Name f \<noteq> []) userFields \<and> distinct (map Name userFields) \<and>
   (\<exists>m. parseTagsFromType (Ptr (Struct ''User'' userFields)) = Returns m \<and> Label m = ''User'' \<and>
        PKField m = ''UserID'' \<and> PKProp m = ''userId'' \<and>
        fst ` set (Mappings m) = {''UserID'', ''Name''} \<and>
        map_of (Mappings m) ''Name'' = Some ''name'') \<and>
   lacksProperty (StructField ''Name'' [] TString ''pk'') \<and>
   (\<exists>e. parseTagsFromType (Struct ''User'' [StructField ''Name'' [] TString ''pk'']) = Fails e) \<and>
   \<not> markedPk (StructField ''Name'' [] TString ''property:name'') \<and>
   parseTagsFromType (Struct ''User'' [StructField ''Name'' [] TString ''property:name''])
     = Fails (NoPrimaryKey ''User'')"
proof -
  have a: "structOf (Other ''int64'') = None"
    and b: "structOf (Ptr (Struct ''User'' userFields)) = Some (''User'', userFields)"
    and c: "\<not> (\<exists>f\<in>set userFields. lacksProperty f)" "\<exists>f\<in>set userFields. markedPk f"
      "\<forall>f\<in>set userFields. Name f \<noteq> []" "distinct (map Name userFields)"
    and d: "lacksProperty (StructField ''Name'' [] TString ''pk'')"
    and e: "\<not> markedPk (StructField ''Name'' [] TString ''property:name'')"
      "\<not> lacksProperty (StructField ''Name'' [] TString ''property:name'')"
    by (simp_all add: userFields_def tag_eval)
  have l: "last (filter markedPk userFields) = StructField ''UserID'' [] TString ''pk,property:userId''"
    and o: "{f \<in> set userFields. optedIn f} = set userFields"
    by (auto simp add: userFields_def tag_eval)
  have p: "propertyName (StructField ''UserID'' [] TString ''pk,property:userId'') = ''userId''"
     "propertyName (StructField ''Name'' [] TString ''property:name'') = ''name''"
     "optedIn (StructField ''Name'' [] TString ''property:name'')"
    by (simp_all add: tag_eval)
  from parseTagsFromType_resolution[of "Other ''int64''"] a
  have 1: "parseTagsFromType (Other ''int64'') = Fails (NotAStruct ''int64'')"
    by (simp add: parseTagsFromType_def)
  from parseTagsFromType_resolution[of "Ptr (Struct ''User'' userFields)"] b c
  obtain m where m: "parseTagsFromType (Ptr (Struct ''User'' userFields)) = Returns m" "Label m = ''User''"
        "PKField m = Name (last (filter markedPk userFields))"
        "PKProp m = propertyName (last (filter markedPk userFields))"
        "fst ` set (Mappings m) = Name ` {f \<in> set userFields. optedIn f}"
        "\<forall>f\<in>set userFields. optedIn f \<longrightarrow> map_of (Mappings m) (Name f) = Some (propertyName f)"
    by blast
  have 2: "\<exists>m. parseTagsFromType (Ptr (Struct ''User'' userFields)) = Returns m \<and> Label m = ''User'' \<and>
        PKField m = ''UserID'' \<and> PKProp m = ''userId'' \<and>
        fst ` set (Mappings m) = {''UserID'', ''Name''} \<and>
        map_of (Mappings m) ''Name'' = Some ''name''"
    apply (rule exI[of _ m])
    using m p unfolding l o by (auto simp: userFields_def)
  from parseTagsFromType_resolution[of "Struct ''User'' [StructField ''Name'' [] TString ''pk'']"] d
  have 3: "\<exists>e. parseTagsFromType (Struct ''User'' [StructField ''Name'' [] TString ''pk'']) = Fails e"
    by (auto simp: structOf_def)
  from parseTagsFromType_resolution[of "Struct ''User'' [StructField ''Name'' [] TString ''property:name'']"] e
  have 4: "parseTagsFromType (Struct ''User'' [StructField ''Name'' [] TString ''property:name''])
     = Fails (NoPrimaryKey ''User'')"
    by (simp add: structOf_def)
  have n: "list_all (\<lambda>f. Name f \<noteq> []) userFields"
    by (simp add: userFields_def)
  show ?thesis using a b c d e n 1 2 3 4 by blast
qed

section \<open>Reflection and the hydration loops\<close>

lemma map_fst_store: "map fst (store ent n x) = map fst ent"
  by (induction ent) auto

lemma lookupField_store:
  "lookupField (store ent n x) m =
     (if m = n then map_option (\<lambda>fv. (fst fv, x)) (lookupField ent n) else lookupField ent m)"
  by (induction ent) (auto simp: lookupField_def)

lemma fieldDecl_store: "fieldDecl (store ent n x) m = fieldDecl ent m"
  by (simp add: fieldDecl_def lookupField_store option.map_comp comp_def)

lemma settable_store: "settable (store ent n x) m = settable ent m"
  by (simp add: settable_def fieldDecl_store)

lemma fits_store: "fits (store ent n x) m y = fits ent m y"
  by (simp add: fits_def fieldDecl_store)

lemma valueOf_store:
  "valueOf (store ent n x) m =
     (if m = n then map_option (\<lambda>_. x) (lookupField ent n) else valueOf ent m)"
  by (simp add: valueOf_def lookupField_store option.map_comp comp_def)

lemma settable_CanSet:
  "settable ent f \<longleftrightarrow> (\<exists>fv. lookupField ent f = Some fv \<and> CanSet fv)"
  by (cases "lookupField ent f") (simp_all add: settable_def fieldDecl_def CanSet_def)

lemma lookupColumn_skip:
  assumes "\<not> matches p (fst kv)"
  shows "lookupColumn (kv # rest) p = lookupColumn rest p"
proof (cases "find (\<lambda>key. key = p \<or> HasSuffix key (''.'' @ p)) (Keys rest)")
  case None
  then show ?thesis using assms by (simp add: lookupColumn_def Keys_def matches_def)
next
  case (Some k)
  then have "matches p k" unfolding find_Some_iff matches_def by blast
  then have "k \<noteq> fst kv" using assms by auto
  then show ?thesis using Some assms
    by (simp add: lookupColumn_def Keys_def matches_def Get_def)
qed

lemma lookupColumn_hit:
  assumes "matches p (fst kv)"
  shows "lookupColumn (kv # rest) p = (snd kv, True)"
  using assms by (simp add: lookupColumn_def Keys_def matches_def Get_def)

lemma lookupColumn_find:
  "lookupColumn rw p =
     (case find (\<lambda>kv. matches p (fst kv)) rw of None \<Rightarrow> (VNil, False) | Some kv \<Rightarrow> (snd kv, True))"
proof (induction rw)
  case Nil
  then show ?case by (simp add: lookupColumn_def Keys_def)
next
  case (Cons kv rest)
  show ?case
  proof (cases "matches p (fst kv)")
    case True
    then show ?thesis by (simp add: lookupColumn_hit)
  next
    case False
    then show ?thesis using Cons by (simp add: lookupColumn_skip)
  qed
qed

lemma FieldByName_struct: "FieldByName (StructValue sv) f = Returns (lookupField sv f)"
  by (simp add: FieldByName_def)

lemma SetField_struct:
  "SetField (StructValue sv) n x =
     (if settable sv n \<and> fits sv n x then Returns (StructValue (store sv n x)) else Panics)"
  by (simp add: SetField_def settable_def fits_def fieldDecl_def CanSet_def split: option.splits)

lemma mapFields_step:
  "mapFields node (StructValue sv) ((f, p) # rest) =
     (if settable sv f then
        (case map_of (Props node) p of
           None \<Rightarrow> mapFields node (StructValue sv) rest
         | Some x \<Rightarrow>
             if fits sv f x then mapFields node (StructValue (store sv f x)) rest else Panics)
      else mapFields node (StructValue sv) rest)"
proof (cases "lookupField sv f")
  case None
  then have "\<not> settable sv f" by (simp add: settable_CanSet)
  then show ?thesis using None by (simp add: FieldByName_struct)
next
  case (Some fv)
  show ?thesis
  proof (cases "CanSet fv")
    case False
    then have "\<not> settable sv f" using Some by (simp add: settable_CanSet)
    then show ?thesis using Some False by (simp add: FieldByName_struct)
  next
    case True
    then have "settable sv f" using Some by (simp add: settable_CanSet)
    then show ?thesis using Some True
      by (simp add: FieldByName_struct SetField_struct split: option.splits)
  qed
qed

lemma mapFields_struct:
  "mapFields node (StructValue sv) M = asEntity (assignFields (map_of (Props node)) sv M)"
proof (induction M arbitrary: sv)
  case Nil
  show ?case by (simp add: asEntity_def)
next
  case (Cons fp M)
  obtain f p where fp: "fp = (f, p)" by (cases fp)
  show ?case unfolding fp mapFields_step using Cons
    by (simp add: asEntity_def split: option.splits)
qed

lemma mapFields_nonstruct:
  "mapFields node NonStructValue M = (if M = [] then Returns NonStructValue else Panics)"
  by (cases M) (auto simp: FieldByName_def)

lemma mapColumns_step:
  "mapColumns rw (StructValue sv) ((f, p) # rest) =
     (if settable sv f then
        (case discovered rw p of
           None \<Rightarrow> mapColumns rw (StructValue sv) rest
         | Some x \<Rightarrow>
             if fits sv f x then mapColumns rw (StructValue (store sv f x)) rest else Panics)
      else mapColumns rw (StructValue sv) rest)"
proof -
  define ok where "ok \<longleftrightarrow> lookupField sv f \<noteq> None \<and> CanSet (the (lookupField sv f))"
  have s: "ok = settable sv f"
    unfolding ok_def by (cases "lookupField sv f") (simp_all add: settable_CanSet)
  have step: "mapColumns rw (StructValue sv) ((f, p) # rest) =
     (case lookupColumn rw p of
        (foundValue, found) \<Rightarrow>
          if found \<and> ok then
            if foundValue \<noteq> VNil then
              (case SetField (StructValue sv) f foundValue of
                 Returns ent' \<Rightarrow> mapColumns rw ent' rest
               | Panics \<Rightarrow> Panics
               | Fails e \<Rightarrow> Fails e)
            else mapColumns rw (StructValue sv) rest
          else mapColumns rw (StructValue sv) rest)"
    unfolding ok_def by (simp add: FieldByName_struct del: not_None_eq)
  show ?thesis
    unfolding step s
    by (simp add: lookupColumn_find discovered_def SetField_struct split: option.splits)
qed

lemma mapColumns_struct:
  "mapColumns rw (StructValue sv) M = asEntity (assignFields (discovered rw) sv M)"
proof (induction M arbitrary: sv)
  case Nil
  show ?case by (simp add: asEntity_def)
next
  case (Cons fp M)
  obtain f p where fp: "fp = (f, p)" by (cases fp)
  show ?case unfolding fp mapColumns_step using Cons
    by (simp add: asEntity_def split: option.splits)
qed

lemma mapColumns_nonstruct:
  "mapColumns rw NonStructValue M = (if M = [] then Returns NonStructValue else Panics)"
  by (cases M) (auto simp: FieldByName_def)

lemma assignFields_not_Fails: "assignFields src ent M \<noteq> Fails err"
  by (induction src ent M rule: assignFields.induct) (simp_all split: option.splits)

lemma assignFields_Panics_iff:
  "assignFields src ent M = Panics \<longleftrightarrow>
     (\<exists>fp\<in>set M. settable ent (fst fp) \<and> (\<exists>x. src (snd fp) = Some x \<and> \<not> fits ent (fst fp) x))"
  by (induction src ent M rule: assignFields.induct)
     (auto simp: settable_store fits_store split: option.splits)

lemma settable_lookupField: "settable ent f \<Longrightarrow> lookupField ent f \<noteq> None"
  by (auto simp: settable_CanSet)

lemma assignFields_Returns:
  "distinct (map fst M) \<Longrightarrow> assignFields src ent M = Returns e \<Longrightarrow>
     map fst e = map fst ent \<and> (\<forall>name. valueOf e name = populated src ent M name)"
proof (induction src ent M rule: assignFields.induct)
  case (1 src ent)
  then show ?case by (simp add: populated_def)
next
  case (2 src ent f p rest)
  have nf: "map_of rest f = None" using "2.prems"(1) by (simp add: map_of_eq_None_iff)
  show ?case
  proof (cases "settable ent f")
    case False
    then have r: "assignFields src ent rest = Returns e" using "2.prems"(2) by simp
    have ih: "map fst e = map fst ent" "\<And>name. valueOf e name = populated src ent rest name"
      using "2.IH"(3)[OF False _ r] "2.prems"(1) by auto
    have "populated src ent ((f, p) # rest) name = populated src ent rest name" for name
      using False nf by (simp add: populated_def)
    then show ?thesis using ih by simp
  next
    case True
    show ?thesis
    proof (cases "src p")
      case None
      then have r: "assignFields src ent rest = Returns e" using "2.prems"(2) True by simp
      have ih: "map fst e = map fst ent" "\<And>name. valueOf e name = populated src ent rest name"
        using "2.IH"(1)[OF True None _ r] "2.prems"(1) by auto
      have "populated src ent ((f, p) # rest) name = populated src ent rest name" for name
        using None nf by (simp add: populated_def)
      then show ?thesis using ih by simp
    next
      case (Some x)
      then have fx: "fits ent f x" and r: "assignFields src (store ent f x) rest = Returns e"
        using "2.prems"(2) True by (simp_all split: if_splits)
      have ih: "map fst e = map fst (store ent f x)"
        "\<And>name. valueOf e name = populated src (store ent f x) rest name"
        using "2.IH"(2)[OF True Some fx _ r] "2.prems"(1) by auto
      have "populated src (store ent f x) rest name = populated src ent ((f, p) # rest) name" for name
        using Some nf True settable_lookupField[OF True]
        by (auto simp: populated_def settable_store valueOf_store split: option.splits)
      then show ?thesis using ih by (simp add: map_fst_store)
    qed
  qed
qed

lemma lookupField_zeroFields:
  "lookupField (zeroFields flds) name = map_option (\<lambda>d. (d, zero (Type d))) (declared flds name)"
  by (induction flds) (auto simp: lookupField_def zeroFields_def declared_def)

lemma valueOf_zeroFields: "valueOf (zeroFields flds) name = zeroValue flds name"
  by (simp add: valueOf_def zeroValue_def lookupField_zeroFields option.map_comp comp_def)

lemma fieldDecl_zeroFields: "fieldDecl (zeroFields flds) name = declared flds name"
  by (simp add: fieldDecl_def lookupField_zeroFields option.map_comp comp_def option.map_ident)

lemma settable_zeroFields: "settable (zeroFields flds) name = exported flds name"
  by (simp add: settable_def exported_def fieldDecl_zeroFields)

lemma fits_zeroFields: "fits (zeroFields flds) name x = accepts flds name x"
  by (simp add: fits_def accepts_def fieldDecl_zeroFields)

lemma New_struct: "New (Struct n flds) = StructValue (zeroFields flds)"
  by (simp add: zeroFields_def)

lemma New_nonstruct: "structOf' T = None \<Longrightarrow> New T = NonStructValue"
  by (cases T) (simp_all add: structOf'_def)

lemma hydrate_struct:
  "elemType r = Struct n flds \<Longrightarrow>
     hydrate r rw = asEntity (assignFields (rowSource rw) (zeroFields flds) (Mappings (meta r)))"
  by (simp add: hydrate_def mapNodeToStruct_def mapFields_struct mapColumns_struct rowSource_def
      New_struct del: New.simps split: option.splits)

lemma hydrate_nonstruct:
  "structOf' (elemType r) = None \<Longrightarrow>
     hydrate r rw = (if Mappings (meta r) = [] then Returns NonStructValue else Panics)"
  by (simp add: hydrate_def mapNodeToStruct_def mapFields_nonstruct mapColumns_nonstruct
      New_nonstruct split: option.splits)

lemma firstNode_None_iff: "firstNode vs = None \<longleftrightarrow> (\<forall>v\<in>set vs. \<forall>node. v \<noteq> VNode node)"
  by (induction vs) (auto split: val.splits)

lemma firstNode_Some_in: "firstNode vs = Some node \<Longrightarrow> VNode node \<in> set vs"
  by (induction vs) (auto split: val.splits)

lemmas reflect_eval = zeroFields_def lookupField_def FieldByName_def CanSet_def SetField_def
  AssignableTo_def Interface_def FieldInterface_def fieldValue_def valueOf_def

lemmas hydrate_eval = hydrate_def Values_def Keys_def Get_def mapNodeToStruct_def
  lookupColumn_def HasSuffix_def

lemma userMeta_resolved: "parseTagsFromType (Struct ''User'' userFields) = Returns userMeta"
  by (simp add: parseTagsFromType_def userFields_def userMeta_def tag_eval)

text \<open>
  The order in which the mappings are visited does not matter: two orders of the same
  mappings panic together, and the records they return have the same fields with the
  same values.
\<close>

lemma mapping_order_irrelevant:
  assumes "distinct (map fst M)" and "distinct (map fst M')" and "set M = set M'"
  shows "(assignFields src ent M = Panics \<longleftrightarrow> assignFields src ent M' = Panics) \<and>
         (\<forall>e e'. assignFields src ent M = Returns e \<and> assignFields src ent M' = Returns e' \<longrightarrow>
            map fst e = map fst e' \<and> (\<forall>name. valueOf e name = valueOf e' name))"
proof -
  have m: "map_of M = map_of M'"
    using assms by (simp add: map_of_inject_set)
  have p: "assignFields src ent M = Panics \<longleftrightarrow> assignFields src ent M' = Panics"
    unfolding assignFields_Panics_iff assms(3) by simp
  have "populated src ent M name = populated src ent M' name" for name
    by (simp add: populated_def m)
  then show ?thesis
    using p assignFields_Returns[OF assms(1), of src ent] assignFields_Returns[OF assms(2), of src ent]
    by metis
qed

section \<open>Outcomes of the lookups\<close>

lemma hydrate_not_Fails: "hydrate r rw \<noteq> Fails err"
proof (cases "structOf' (elemType r)")
  case None
  then show ?thesis by (simp add: hydrate_nonstruct)
next
  case (Some nf)
  then obtain n flds where "elemType r = Struct n flds"
    by (cases "elemType r") (auto simp: structOf'_def)
  then show ?thesis
    by (simp add: hydrate_struct asEntity_def assignFields_not_Fails split: outcome.splits)
qed

lemma hydrateAll_each:
  "hydrateAll r records = Returns es \<Longrightarrow>
     list_all2 (\<lambda>rw e. hydrate r rw = Returns e) records es"
  by (induction records arbitrary: es) (auto split: outcome.splits)

lemma Find_hydrates_each:
  assumes "bld qb = Inr q" and "runner r q = Inr records" and "snd (Find bld r qb) = Returns es"
  shows "length es = length records \<and> (\<forall>i<length records. hydrate r (records ! i) = Returns (es ! i))"
proof -
  have "hydrateAll r records = Returns es" using assms by (simp add: Find_def)
  then have "list_all2 (\<lambda>rw e. hydrate r rw = Returns e) records es" by (rule hydrateAll_each)
  then show ?thesis by (auto simp: list_all2_conv_all_nth)
qed

text \<open>
  The dispatch of the singular lookups on the number of records, once the query is
  built and run: none, more than one, exactly one, at least one.
\<close>

lemma FindByID_rows:
  assumes "bld [Match (WithProperties (N ''n'' (Label (meta r))) [(PKProp (meta r), ident)]),
                Return [''n'']] = Inr q"
    and "runner r q = Inr records"
  shows "records = [] \<Longrightarrow> snd (FindByID bld r ident) = Fails ErrNotFound"
    and "1 < length records \<Longrightarrow>
           snd (FindByID bld r ident) = Fails (ExpectedOneRecord (length records))"
    and "records = [rw] \<Longrightarrow> Get rw ''n'' = Some (VNode node) \<Longrightarrow>
           snd (FindByID bld r ident) = mapNodeToStruct node (New (elemType r)) (meta r)"
  using assms by (auto simp: FindByID_def)

lemma FindOne_rows:
  assumes "bld qb = Inr q" and "runner r q = Inr records"
  shows "records = [] \<Longrightarrow> snd (FindOne bld r qb) = Fails ErrNotFound"
    and "1 < length records \<Longrightarrow>
           snd (FindOne bld r qb) = Fails (ExpectedOneRecord (length records))"
    and "records = [rw] \<Longrightarrow> snd (FindOne bld r qb) = hydrate r rw"
  using assms by (auto simp: FindOne_def)

lemma FindFirst_rows:
  assumes "bld qb = Inr q" and "runner r q = Inr records"
  shows "records = [] \<Longrightarrow> snd (FindFirst bld r qb) = Fails ErrNotFound"
    and "records = rw # rest \<Longrightarrow> snd (FindFirst bld r qb) = hydrate r rw"
  using assms by (auto simp: FindFirst_def)

lemma hydratedBy_hydrate:
  assumes "hydratedBy bld r qb rw e"
  shows "hydrate r rw = Returns e"
proof -
  from assms obtain q records where b: "bld qb = Inr q" and rn: "runner r q = Inr records"
    and c: "(\<exists>es i. snd (Find bld r qb) = Returns es \<and> i < length records \<and> i < length es \<and>
                 rw = records ! i \<and> e = es ! i) \<or>
         (snd (FindOne bld r qb) = Returns e \<and> records = [rw]) \<or>
         (snd (FindFirst bld r qb) = Returns e \<and> (\<exists>rest. records = rw # rest))"
    unfolding hydratedBy_def by blast
  from c show ?thesis
  proof (elim disjE exE conjE)
    fix es i
    assume "snd (Find bld r qb) = Returns es" "i < length records" "rw = records ! i" "e = es ! i"
    then show ?thesis using Find_hydrates_each[where bld = bld and qb = qb and r = r, OF b rn] by simp
  next
    assume "snd (FindOne bld r qb) = Returns e" "records = [rw]"
    then show ?thesis using FindOne_rows(3)[where bld = bld and qb = qb and r = r, OF b rn] by simp
  next
    fix rest
    assume "snd (FindFirst bld r qb) = Returns e" "records = rw # rest"
    then show ?thesis using FindFirst_rows(2)[where bld = bld and qb = qb and r = r, OF b rn] by simp
  qed
qed

lemma firstNode_index:
  "i < length vs \<Longrightarrow> vs ! i = VNode node \<Longrightarrow> (\<forall>j<i. \<forall>m. vs ! j \<noteq> VNode m) \<Longrightarrow>
     firstNode vs = Some node"
proof (induction vs arbitrary: i)
  case Nil
  then show ?case by simp
next
  case (Cons v vs)
  show ?case
  proof (cases i)
    case 0
    then show ?thesis using Cons.prems by simp
  next
    case (Suc k)
    have "\<forall>m. v \<noteq> VNode m" using Cons.prems(3) Suc by force
    moreover have "firstNode vs = Some node"
    proof (rule Cons.IH[of k])
      show "k < length vs" using Cons.prems(1) Suc by simp
      show "vs ! k = VNode node" using Cons.prems(2) Suc by simp
      show "\<forall>j<k. \<forall>m. vs ! j \<noteq> VNode m"
      proof (intro allI impI)
        fix j m assume "j < k"
        then have "Suc j < i" using Suc by simp
        then show "vs ! j \<noteq> VNode m" using Cons.prems(3) by force
      qed
    qed
    ultimately show ?thesis by (cases v) simp_all
  qed
qed

section \<open>Hydration of a result row\<close>

text \<open>
  Claim C1, as the code has it. Let \<open>Find\<close>, \<open>FindOne\<close> or \<open>FindFirst\<close> make a record
  of a row of the result, and take a mapped field with its property (the mappings
  bind each field name once, as resolved metadata does).
  \<^item> If the field is exported and some value of the row is a node, the field has the
    value that the \<^emph>\<open>first\<close> node of the row, the one no node precedes, has for the
    property, and its zero value when the property is absent from the bag.
  \<^item> If the field is exported and no value of the row is a node, the columns are
    searched in order for a name equal to the property or ending in a dot and the
    property; the field has the value of the first such column when it is not nil, and
    its zero value when that value is nil or no column matches.
  \<^item> A mapped field that is not exported cannot be set by reflection and keeps its zero
    value in both cases (the guard \<^verbatim>\<open>CanSet\<close> of both loops).
\<close>

theorem hydrate_populates:
  assumes "distinct (map fst (Mappings (meta r)))"
    and "hydratedBy bld r qb rw e"
    and "(f, p) \<in> set (Mappings (meta r))"
  shows "(\<not> exported (structFields (elemType r)) f \<longrightarrow>
            fieldValue e f = zeroValue (structFields (elemType r)) f) \<and>
         (exported (structFields (elemType r)) f \<longrightarrow>
            (\<forall>i node. i < length rw \<and> snd (rw ! i) = VNode node \<and>
                 (\<forall>j<i. \<forall>m. snd (rw ! j) \<noteq> VNode m) \<longrightarrow>
               fieldValue e f =
                 (case map_of (Props node) p of
                    Some x \<Rightarrow> Some x
                  | None \<Rightarrow> zeroValue (structFields (elemType r)) f)) \<and>
            ((\<forall>kv\<in>set rw. \<forall>m. snd kv \<noteq> VNode m) \<longrightarrow>
               fieldValue e f =
                 (case find (\<lambda>kv. fst kv = p \<or> HasSuffix (fst kv) (''.'' @ p)) rw of
                    Some kv \<Rightarrow>
                      if snd kv \<noteq> VNil then Some (snd kv)
                      else zeroValue (structFields (elemType r)) f
                  | None \<Rightarrow> zeroValue (structFields (elemType r)) f)))"
proof -
  have h: "hydrate r rw = Returns e" using assms(2) by (rule hydratedBy_hydrate)
  have ne: "Mappings (meta r) \<noteq> []" using assms(3) by auto
  obtain n flds where T: "elemType r = Struct n flds"
  proof (cases "structOf' (elemType r)")
    case None
    then show ?thesis using h ne by (simp add: hydrate_nonstruct)
  next
    case (Some nf)
    then show ?thesis using that by (cases "elemType r") (auto simp: structOf'_def)
  qed
  have sf: "structFields (elemType r) = flds" by (simp add: structFields_def T)
  obtain sv where sv: "e = StructValue sv"
    and a: "assignFields (rowSource rw) (zeroFields flds) (Mappings (meta r)) = Returns sv"
    using h unfolding hydrate_struct[OF T] by (auto simp: asEntity_def split: outcome.splits)
  have mp: "map_of (Mappings (meta r)) f = Some p"
    using assms(1,3) by simp
  have "fieldValue e f = populated (rowSource rw) (zeroFields flds) (Mappings (meta r)) f"
    using assignFields_Returns[OF assms(1) a] by (simp add: sv fieldValue_def)
  also have "\<dots> = (if exported flds f then
                      (case rowSource rw p of None \<Rightarrow> zeroValue flds f | Some x \<Rightarrow> Some x)
                    else zeroValue flds f)"
    by (simp add: populated_def mp settable_zeroFields valueOf_zeroFields split: option.splits)
  finally have v: "fieldValue e f =
      (if exported flds f then
         (case rowSource rw p of None \<Rightarrow> zeroValue flds f | Some x \<Rightarrow> Some x)
       else zeroValue flds f)" .
  show ?thesis unfolding sf
  proof (intro conjI impI allI)
    assume "\<not> exported flds f"
    then show "fieldValue e f = zeroValue flds f" using v by simp
  next
    fix i node
    assume x: "exported flds f"
      and i: "i < length rw \<and> snd (rw ! i) = VNode node \<and> (\<forall>j<i. \<forall>m. snd (rw ! j) \<noteq> VNode m)"
    have "firstNode (Values rw) = Some node"
    proof (rule firstNode_index[of i])
      show "i < length (Values rw)" using i by (simp add: Values_def)
      show "Values rw ! i = VNode node" using i by (simp add: Values_def)
      show "\<forall>j<i. \<forall>m. Values rw ! j \<noteq> VNode m" using i by (simp add: Values_def)
    qed
    then have "rowSource rw = map_of (Props node)" by (simp add: rowSource_def)
    then show "fieldValue e f =
                 (case map_of (Props node) p of
                    Some x \<Rightarrow> Some x
                  | None \<Rightarrow> zeroValue flds f)"
      using v x by (simp split: option.splits)
  next
    assume x: "exported flds f" and none: "\<forall>kv\<in>set rw. \<forall>m. snd kv \<noteq> VNode m"
    have "firstNode (Values rw) = None"
      using none by (auto simp: firstNode_None_iff Values_def)
    then have "rowSource rw = discovered rw" by (simp add: rowSource_def)
    then show "fieldValue e f =
                 (case find (\<lambda>kv. fst kv = p \<or> HasSuffix (fst kv) (''.'' @ p)) rw of
                    Some kv \<Rightarrow>
                      if snd kv \<noteq> VNil then Some (snd kv)
                      else zeroValue flds f
                  | None \<Rightarrow> zeroValue flds f)"
      using v x by (simp add: discovered_def matches_def split: option.splits)
  qed
qed

text \<open>
  Against C1 as stated: the field \<open>name\<close> of \<open>Member\<close> is mapped by metadata resolution
  and the only row holds a node with the property \<open>name\<close>, yet \<open>Find\<close>, \<open>FindOne\<close> and
  \<open>FindFirst\<close> leave the field at its zero value.
\<close>

theorem hydrate_skips_unexported:
  "parseTagsFromType (Struct ''Member'' memberFields) = Returns (meta memberRepo) \<and>
   (''name'', ''name'') \<in> set (Mappings (meta memberRepo)) \<and>
   memberRecords () = Inr [[(''m'', VNode memberNode)]] \<and>
   map_of (Props memberNode) ''name'' = Some (VString ''Alice'') \<and>
   Find buildOk (memberRepo\<lparr>runner := memberRecords\<rparr>) [Raw ''MATCH (m:Member) RETURN m'']
     = ([Build [Raw ''MATCH (m:Member) RETURN m''], Run ()],
        Returns [StructValue
                   [(StructField ''ID'' [] TString ''pk,property:id'', VString ''m1''),
                    (StructField ''name'' ''models'' TString ''property:name'', VString [])]]) \<and>
   FindOne buildOk (memberRepo\<lparr>runner := memberRecords\<rparr>) [Raw ''MATCH (m:Member) RETURN m'']
     = ([Build [Raw ''MATCH (m:Member) RETURN m''], Run ()],
        Returns (StructValue
                   [(StructField ''ID'' [] TString ''pk,property:id'', VString ''m1''),
                    (StructField ''name'' ''models'' TString ''property:name'', VString [])])) \<and>
   FindFirst buildOk (memberRepo\<lparr>runner := memberRecords\<rparr>) [Raw ''MATCH (m:Member) RETURN m'']
     = ([Build [Raw ''MATCH (m:Member) RETURN m''], Run ()],
        Returns (StructValue
                   [(StructField ''ID'' [] TString ''pk,property:id'', VString ''m1''),
                    (StructField ''name'' ''models'' TString ''property:name'', VString [])])) \<and>
   fieldValue (StructValue
                   [(StructField ''ID'' [] TString ''pk,property:id'', VString ''m1''),
                    (StructField ''name'' ''models'' TString ''property:name'', VString [])]) ''name''
     = Some (VString [])"
  by (simp add: parseTagsFromType_def memberFields_def memberMeta_def memberRepo_def tag_eval
      memberRecords_def memberNode_def buildOk_def Find_def FindOne_def FindFirst_def
      reflect_eval hydrate_eval)

text \<open>
  The hydration theorem at the \<open>User\<close> repository. \<open>Find\<close> on a row whose second and
  third columns are nodes takes the name of the second column's node, not the column
  \<open>name\<close> before it nor the node after it; \<open>FindFirst\<close> on a projection \<open>u.name\<close>
  takes the column and leaves the key at its zero value.
\<close>

theorem hydrate_populates_witness:
  "distinct (map fst (Mappings (meta (userRepo\<lparr>runner := mixedRecords\<rparr>)))) \<and>
   hydratedBy buildOk (userRepo\<lparr>runner := mixedRecords\<rparr>) [Raw ''MATCH (u:User), (v:User) RETURN u.name AS name, u, v'']
     [(''name'', VString ''Zed''), (''u'', VNode aliceNode),
      (''v'', VNode (Node ''4:abc:2'' [''User''] [(''userId'', VString ''u2''), (''name'', VString ''Bea'')]))]
     (StructValue [(StructField ''UserID'' [] TString ''pk,property:userId'', VString ''u1''),
                   (StructField ''Name'' [] TString ''property:name'', VString ''Alice'')]) \<and>
   (''Name'', ''name'') \<in> set (Mappings (meta (userRepo\<lparr>runner := mixedRecords\<rparr>))) \<and>
   exported (structFields (elemType (userRepo\<lparr>runner := mixedRecords\<rparr>))) ''Name'' \<and>
   fieldValue (StructValue [(StructField ''UserID'' [] TString ''pk,property:userId'', VString ''u1''),
                   (StructField ''Name'' [] TString ''property:name'', VString ''Alice'')]) ''Name''
     = Some (VString ''Alice'') \<and>
   hydratedBy buildOk (userRepo\<lparr>runner := bobRecords\<rparr>) [Raw ''MATCH (u:User) RETURN u.name'']
     [(''u.name'', VString ''Bob'')]
     (StructValue [(StructField ''UserID'' [] TString ''pk,property:userId'', VString []),
                   (StructField ''Name'' [] TString ''property:name'', VString ''Bob'')]) \<and>
   fieldValue (StructValue [(StructField ''UserID'' [] TString ''pk,property:userId'', VString []),
                   (StructField ''Name'' [] TString ''property:name'', VString ''Bob'')]) ''Name''
     = Some (VString ''Bob'')"
proof -
  let ?ra = "userRepo\<lparr>runner := mixedRecords\<rparr>"
  let ?rb = "userRepo\<lparr>runner := bobRecords\<rparr>"
  let ?qa = "[Raw ''MATCH (u:User), (v:User) RETURN u.name AS name, u, v'']"
  let ?qb = "[Raw ''MATCH (u:User) RETURN u.name'']"
  let ?rowa = "[(''name'', VString ''Zed''), (''u'', VNode aliceNode),
      (''v'', VNode (Node ''4:abc:2'' [''User''] [(''userId'', VString ''u2''), (''name'', VString ''Bea'')]))]"
  let ?rowb = "[(''u.name'', VString ''Bob'')]"
  let ?a = "StructValue [(StructField ''UserID'' [] TString ''pk,property:userId'', VString ''u1''),
                (StructField ''Name'' [] TString ''property:name'', VString ''Alice'')]"
  let ?b = "StructValue [(StructField ''UserID'' [] TString ''pk,property:userId'', VString []),
                (StructField ''Name'' [] TString ''property:name'', VString ''Bob'')]"
  have da: "distinct (map fst (Mappings (meta ?ra)))"
    and db: "distinct (map fst (Mappings (meta ?rb)))"
    and ma: "(''Name'', ''name'') \<in> set (Mappings (meta ?ra))"
    and mb: "(''Name'', ''name'') \<in> set (Mappings (meta ?rb))"
    by (simp_all add: userRepo_def userMeta_def)
  have fa: "snd (Find buildOk ?ra ?qa) = Returns [?a]"
    by (simp add: Find_def buildOk_def mixedRecords_def userRepo_def userMeta_def userFields_def
        aliceNode_def reflect_eval hydrate_eval)
  have ha: "hydratedBy buildOk ?ra ?qa ?rowa ?a"
    unfolding hydratedBy_def
  proof (intro exI conjI disjI1)
    show "buildOk ?qa = Inr ()" by (simp add: buildOk_def)
    show "runner ?ra () = Inr [?rowa]" by (simp add: mixedRecords_def)
    show "snd (Find buildOk ?ra ?qa) = Returns [?a]" by (rule fa)
    show "0 < length [?rowa]" by simp
    show "0 < length [?a]" by simp
    show "?rowa = [?rowa] ! 0" by simp
    show "?a = [?a] ! 0" by simp
  qed
  have fb: "snd (FindFirst buildOk ?rb ?qb) = Returns ?b"
    by (simp add: FindFirst_def buildOk_def bobRecords_def userRepo_def userMeta_def userFields_def
        aliceNode_def reflect_eval hydrate_eval)
  have hb: "hydratedBy buildOk ?rb ?qb ?rowb ?b"
    unfolding hydratedBy_def
  proof (intro exI conjI disjI2)
    show "buildOk ?qb = Inr ()" by (simp add: buildOk_def)
    show "runner ?rb () = Inr [?rowb, [(''n'', VNode aliceNode)]]" by (simp add: bobRecords_def)
    show "snd (FindFirst buildOk ?rb ?qb) = Returns ?b" by (rule fb)
    show "[?rowb, [(''n'', VNode aliceNode)]] = ?rowb # [[(''n'', VNode aliceNode)]]" by simp
  qed
  have xa: "exported (structFields (elemType ?ra)) ''Name''"
    and xb: "exported (structFields (elemType ?rb)) ''Name''"
    by (simp_all add: exported_def declared_def structFields_def userRepo_def userFields_def)
  have ia: "1 < length ?rowa \<and> snd (?rowa ! 1) = VNode aliceNode \<and>
            (\<forall>j<1. \<forall>m. snd (?rowa ! j) \<noteq> VNode m)"
    by simp
  have "fieldValue ?a ''Name'' =
          (case map_of (Props aliceNode) ''name'' of
             Some x \<Rightarrow> Some x
           | None \<Rightarrow> zeroValue (structFields (elemType ?ra)) ''Name'')"
    by (rule hydrate_populates[OF da ha ma, THEN conjunct2, THEN mp, OF xa, THEN conjunct1,
          rule_format, OF ia])
  then have va: "fieldValue ?a ''Name'' = Some (VString ''Alice'')"
    by (simp add: aliceNode_def)
  have nb: "\<forall>kv\<in>set ?rowb. \<forall>m. snd kv \<noteq> VNode m" by simp
  have vb: "fieldValue ?b ''Name'' = Some (VString ''Bob'')"
    using hydrate_populates[OF db hb mb] xb nb by (simp add: HasSuffix_def)
  show ?thesis using da ha ma xa va hb vb by simp
qed

section \<open>The single record of \<open>FindByID\<close>\<close>

text \<open>
  Claim C2 says that \<open>FindByID\<close>, when its query runs and the result is exactly one
  row with a node under \<open>n\<close>, yields the record mapped from that node. The code does
  not at these inputs, with the query built and run and one such row returned:
  \<^item> the node's \<open>name\<close> is a number and the field \<open>Name\<close> a string: \<open>mapNodeToStruct\<close>
    panics in reflection's \<^verbatim>\<open>Set\<close>, and \<open>FindByID\<close> with it;
  \<^item> the repository is that of \<^verbatim>\<open>NewRepository[*User]\<close>, which metadata resolution
    accepts: the value made for the record is a pointer, and \<open>mapNodeToStruct\<close> panics
    in reflection's \<^verbatim>\<open>FieldByName\<close>, although the node fits the struct.
  The other two parts of the claim hold (\<open>FindByID_rows\<close>).
\<close>

theorem FindByID_panics_on_single_row:
  "mistypedRecords ()
     = Inr [[(''n'', VNode (Node ''4:abc:9'' [''User'']
                              [(''userId'', VString ''u9''), (''name'', VInt64 42)]))]] \<and>
   FindByID buildOk (userRepo\<lparr>runner := mistypedRecords\<rparr>) (VString ''u9'')
     = ([Build [Match (WithProperties (N ''n'' ''User'') [(''userId'', VString ''u9'')]),
                Return [''n'']],
         Run ()],
        Panics) \<and>
   NewRepository (Ptr (Struct ''User'' userFields)) aliceRecords = Returns pointerRepo \<and>
   aliceRecords () = Inr [[(''n'', VNode aliceNode)]] \<and>
   FindByID buildOk pointerRepo (VString ''u1'')
     = ([Build [Match (WithProperties (N ''n'' ''User'') [(''userId'', VString ''u1'')]),
                Return [''n'']],
         Run ()],
        Panics) \<and>
   FindByID buildOk (userRepo\<lparr>runner := aliceRecords\<rparr>) (VString ''u1'')
     = ([Build [Match (WithProperties (N ''n'' ''User'') [(''userId'', VString ''u1'')]),
                Return [''n'']],
         Run ()],
        Returns (StructValue
                   [(StructField ''UserID'' [] TString ''pk,property:userId'', VString ''u1''),
                    (StructField ''Name'' [] TString ''property:name'', VString ''Alice'')]))"
  by (simp add: FindByID_def NewRepository_def parseTags_def parseTagsFromType_def tag_eval
      pointerRepo_def userRepo_def userMeta_def userFields_def buildOk_def mistypedRecords_def
      aliceRecords_def aliceNode_def reflect_eval hydrate_eval)

section \<open>\<open>FindOne\<close> and \<open>FindFirst\<close>\<close>

text \<open>
  Claim C3 says that \<open>FindFirst\<close>, when the result has a row, hydrates the first row
  and returns the record. The code does not at these inputs, with the query built
  and run:
  \<^item> the first row holds a node whose \<open>name\<close> is a number, for the string field \<open>Name\<close>,
    or a column \<open>u.name\<close> that is a number: \<open>FindFirst\<close> panics in reflection's
    \<^verbatim>\<open>Set\<close>;
  \<^item> the repository is that of \<^verbatim>\<open>NewRepository[*User]\<close>: \<open>FindFirst\<close> panics in
    reflection's \<^verbatim>\<open>FieldByName\<close> on a row whose node fits the struct.
  The rest of the claim holds (\<open>FindOne_rows\<close>, \<open>FindFirst_rows\<close>): \<open>FindOne\<close> returns
  the sentinel on no row and the record-count error on more than one, \<open>FindFirst\<close>
  the sentinel on no row, and on two rows it does not count them.
\<close>

theorem FindFirst_panics_on_first_row:
  "mistypedRecords ()
     = Inr [[(''n'', VNode (Node ''4:abc:9'' [''User'']
                              [(''userId'', VString ''u9''), (''name'', VInt64 42)]))]] \<and>
   FindFirst buildOk (userRepo\<lparr>runner := mistypedRecords\<rparr>) [Raw ''MATCH (n:User) RETURN n'']
     = ([Build [Raw ''MATCH (n:User) RETURN n''], Run ()], Panics) \<and>
   numberRecords () = Inr [[(''u.name'', VInt64 42)], [(''u.name'', VString ''Bob'')]] \<and>
   FindFirst buildOk (userRepo\<lparr>runner := numberRecords\<rparr>) [Raw ''MATCH (u:User) RETURN u.name'']
     = ([Build [Raw ''MATCH (u:User) RETURN u.name''], Run ()], Panics) \<and>
   NewRepository (Ptr (Struct ''User'' userFields)) aliceRecords = Returns pointerRepo \<and>
   aliceRecords () = Inr [[(''n'', VNode aliceNode)]] \<and>
   FindFirst buildOk pointerRepo [Raw ''MATCH (n:User) RETURN n'']
     = ([Build [Raw ''MATCH (n:User) RETURN n''], Run ()], Panics) \<and>
   FindFirst buildOk (userRepo\<lparr>runner := twinRecords\<rparr>) [Raw ''MATCH (n:User) RETURN n'']
     = ([Build [Raw ''MATCH (n:User) RETURN n''], Run ()],
        Returns (StructValue
                   [(StructField ''UserID'' [] TString ''pk,property:userId'', VString ''u1''),
                    (StructField ''Name'' [] TString ''property:name'', VString ''Alice'')])) \<and>
   FindOne buildOk (userRepo\<lparr>runner := twinRecords\<rparr>) [Raw ''MATCH (n:User) RETURN n'']
     = ([Build [Raw ''MATCH (n:User) RETURN n''], Run ()], Fails (ExpectedOneRecord 2))"
  by (simp add: FindFirst_def FindOne_def NewRepository_def parseTags_def parseTagsFromType_def
      tag_eval pointerRepo_def userRepo_def userMeta_def userFields_def buildOk_def
      mistypedRecords_def numberRecords_def aliceRecords_def twinRecords_def aliceNode_def
      reflect_eval hydrate_eval)

section \<open>An empty result\<close>

text \<open>
  Claim C5. When the query builds and the runner answers with no record, \<open>FindAll\<close>
  returns the empty sequence without error, and \<open>FindGraph\<close> returns the not-found
  sentinel instead of an empty graph.
\<close>

theorem empty_result_policies:
  "(bld [Match (N ''n'' (Label (meta r))), Return [''n'']] = Inr q \<and> runner r q = Inr [] \<longrightarrow>
      snd (FindAll bld r) = Returns []) \<and>
   (bld qb = Inr q' \<and> pmRunner q' = Inr [] \<longrightarrow>
      snd (FindGraph bld pmRunner qb) = Fails ErrNotFound)"
proof (intro conjI impI)
  assume "bld [Match (N ''n'' (Label (meta r))), Return [''n'']] = Inr q \<and> runner r q = Inr []"
  then show "snd (FindAll bld r) = Returns []"
    by (simp add: FindAll_def)
next
  assume "bld qb = Inr q' \<and> pmRunner q' = Inr []"
  then show "snd (FindGraph bld pmRunner qb) = Fails ErrNotFound"
    by (simp add: FindGraph_def)
qed

text \<open>Both operations with a runner that finds nothing.\<close>

theorem empty_result_policies_witness:
  "buildOk [Match (N ''n'' (Label (meta userRepo))), Return [''n'']] = Inr () \<and>
   runner userRepo () = Inr [] \<and>
   snd (FindAll buildOk userRepo) = Returns [] \<and>
   buildOk [Raw ''MATCH (u)-[r]->(p) RETURN u, r, p''] = Inr () \<and>
   noRecords () = Inr [] \<and>
   snd (FindGraph buildOk noRecords [Raw ''MATCH (u)-[r]->(p) RETURN u, r, p'']) = Fails ErrNotFound"
proof -
  have a: "buildOk [Match (N ''n'' (Label (meta userRepo))), Return [''n'']] = Inr () \<and>
           runner userRepo () = Inr []"
    and b: "buildOk [Raw ''MATCH (u)-[r]->(p) RETURN u, r, p''] = Inr () \<and> noRecords () = Inr []"
    by (simp_all add: buildOk_def userRepo_def noRecords_def)
  note t = empty_result_policies[where bld = buildOk and r = userRepo and q = "()" and q' = "()"
      and pmRunner = noRecords and qb = "[Raw ''MATCH (u)-[r]->(p) RETURN u, r, p'']"]
  show ?thesis using t a b by simp
qed

section \<open>Generic graph queries\<close>

lemma collectValue_deduplicated: "deduplicated st \<Longrightarrow> deduplicated (collectValue st x)"
  by (cases x) (auto simp: deduplicated_def collectValue_def)

lemma collectValue_covers_new: "covers (collectValue st x) x"
  by (cases x) (auto simp: covers_def collectValue_def)

lemma collectValue_covers_old: "covers st y \<Longrightarrow> covers (collectValue st x) y"
  by (cases x; cases y) (auto simp: covers_def collectValue_def)

lemma collectValue_drawnFrom: "drawnFrom X st \<Longrightarrow> x \<in> X \<Longrightarrow> drawnFrom X (collectValue st x)"
  by (cases x) (auto simp: drawnFrom_def collectValue_def nodeOf_def edgeOf_def)

lemma collectValues_props:
  "deduplicated st \<Longrightarrow> drawnFrom X st \<Longrightarrow> set xs \<subseteq> X \<Longrightarrow>
     deduplicated (foldl collectValue st xs) \<and> drawnFrom X (foldl collectValue st xs) \<and>
     (\<forall>x\<in>set xs. covers (foldl collectValue st xs) x) \<and>
     (\<forall>y. covers st y \<longrightarrow> covers (foldl collectValue st xs) y)"
proof (induction xs arbitrary: st)
  case Nil
  then show ?case by simp
next
  case (Cons x xs)
  have d: "deduplicated (collectValue st x)" and f: "drawnFrom X (collectValue st x)"
    using Cons.prems by (simp_all add: collectValue_deduplicated collectValue_drawnFrom)
  have s: "set xs \<subseteq> X" using Cons.prems by simp
  note ih = Cons.IH[OF d f s]
  show ?case using ih collectValue_covers_new[of st x] collectValue_covers_old[of st _ x]
    by auto
qed

lemma collectRecords_props:
  "deduplicated st \<Longrightarrow> drawnFrom X st \<Longrightarrow> valuesOf records \<subseteq> X \<Longrightarrow>
     deduplicated (collectRecords st records) \<and> drawnFrom X (collectRecords st records) \<and>
     (\<forall>x\<in>valuesOf records. covers (collectRecords st records) x) \<and>
     (\<forall>y. covers st y \<longrightarrow> covers (collectRecords st records) y)"
  unfolding collectRecords_def
proof (induction records arbitrary: st)
  case Nil
  then show ?case by (simp add: valuesOf_def)
next
  case (Cons rw records)
  let ?st = "foldl collectValue st (Values rw)"
  have sub: "set (Values rw) \<subseteq> X" "valuesOf records \<subseteq> X"
    using Cons.prems(3) by (auto simp: valuesOf_def)
  note v = collectValues_props[OF Cons.prems(1,2) sub(1)]
  note ih = Cons.IH[OF v[THEN conjunct1] v[THEN conjunct2, THEN conjunct1] sub(2)]
  show ?case using v ih by (auto simp: valuesOf_def)
qed

text \<open>
  Claim C4. When the query builds and the runner answers with at least one record,
  \<open>FindGraph\<close> returns a graph in which no node identifier and no edge identifier
  occurs twice, in which every node and every relationship that is a value of some
  record appears under its identifier, and in which every element was made from such
  a value.
\<close>

theorem FindGraph_deduplicates:
  assumes "bld qb = Inr q" and "pmRunner q = Inr records" and "records \<noteq> []"
  shows "\<exists>g. snd (FindGraph bld pmRunner qb) = Returns g \<and>
           distinct (map ID (Nodes g)) \<and> distinct (map EdgeID (Edges g)) \<and>
           (\<forall>rw\<in>set records. \<forall>x\<in>set (Values rw).
              (\<forall>v. x = VNode v \<longrightarrow> ElementId v \<in> ID ` set (Nodes g)) \<and>
              (\<forall>v. x = VRelationship v \<longrightarrow> RelElementId v \<in> EdgeID ` set (Edges g))) \<and>
           (\<forall>n\<in>set (Nodes g). \<exists>rw\<in>set records. \<exists>v. VNode v \<in> set (Values rw) \<and>
              n = GraphNode (ElementId v) (Labels v) (Props v)) \<and>
           (\<forall>e\<in>set (Edges g). \<exists>rw\<in>set records. \<exists>v. VRelationship v \<in> set (Values rw) \<and>
              e = Edge (RelElementId v) (StartElementId v) (EndElementId v) (RelType v) (RelProps v))"
proof -
  let ?init = "\<lparr>graph = \<lparr>Nodes = [], Edges = []\<rparr>, seenNodeIDs = {}, seenEdgeIDs = {}\<rparr>"
  let ?st = "collectRecords ?init records"
  have r: "snd (FindGraph bld pmRunner qb) = Returns (graph ?st)"
    using assms by (simp add: FindGraph_def)
  have i: "deduplicated ?init" "drawnFrom (valuesOf records) ?init"
    by (simp_all add: deduplicated_def drawnFrom_def)
  note p = collectRecords_props[OF i subset_refl]
  have d: "deduplicated ?st" and f: "drawnFrom (valuesOf records) ?st"
    and c: "\<forall>x\<in>valuesOf records. covers ?st x"
    using p by blast+
  have 1: "distinct (map ID (Nodes (graph ?st)))" "distinct (map EdgeID (Edges (graph ?st)))"
    using d by (simp_all add: deduplicated_def)
  have 2: "\<forall>rw\<in>set records. \<forall>x\<in>set (Values rw).
              (\<forall>v. x = VNode v \<longrightarrow> ElementId v \<in> ID ` set (Nodes (graph ?st))) \<and>
              (\<forall>v. x = VRelationship v \<longrightarrow> RelElementId v \<in> EdgeID ` set (Edges (graph ?st)))"
  proof (intro ballI conjI allI impI)
    fix rw x and v :: "val node"
    assume "rw \<in> set records" "x \<in> set (Values rw)" "x = VNode v"
    then have "covers ?st (VNode v)" using c by (auto simp: valuesOf_def)
    then show "ElementId v \<in> ID ` set (Nodes (graph ?st))"
      using d by (simp add: covers_def deduplicated_def)
  next
    fix rw x and v :: "val relationship"
    assume "rw \<in> set records" "x \<in> set (Values rw)" "x = VRelationship v"
    then have "covers ?st (VRelationship v)" using c by (auto simp: valuesOf_def)
    then show "RelElementId v \<in> EdgeID ` set (Edges (graph ?st))"
      using d by (simp add: covers_def deduplicated_def)
  qed
  have 3: "\<forall>n\<in>set (Nodes (graph ?st)). \<exists>rw\<in>set records. \<exists>v. VNode v \<in> set (Values rw) \<and>
              n = GraphNode (ElementId v) (Labels v) (Props v)"
    using f by (fastforce simp: drawnFrom_def valuesOf_def nodeOf_def)
  have 4: "\<forall>e\<in>set (Edges (graph ?st)). \<exists>rw\<in>set records. \<exists>v. VRelationship v \<in> set (Values rw) \<and>
              e = Edge (RelElementId v) (StartElementId v) (EndElementId v) (RelType v) (RelProps v)"
    using f by (fastforce simp: drawnFrom_def valuesOf_def edgeOf_def)
  show ?thesis using r 1 2 3 4 by blast
qed

text \<open>
  Two records that repeat one author: the author is listed once, with both posts and
  both relationships.
\<close>

theorem FindGraph_deduplicates_witness:
  "buildOk [Raw ''MATCH (u:User)-[r:WROTE]->(p:Post) RETURN u, r, p''] = Inr () \<and>
   snd (FindGraph buildOk fanOutRecords [Raw ''MATCH (u:User)-[r:WROTE]->(p:Post) RETURN u, r, p''])
     = Returns \<lparr>Nodes = [GraphNode ''4:abc:1'' [''User'']
                           [(''name'', VString ''George Orwell''), (''userId'', VString ''author-123'')],
                         GraphNode ''4:abc:2'' [''Post''] [(''postId'', VString ''post-1984'')],
                         GraphNode ''4:abc:3'' [''Post''] [(''postId'', VString ''post-farm'')]],
                Edges = [Edge ''5:def:0'' ''4:abc:1'' ''4:abc:2'' ''WROTE'' [],
                         Edge ''5:def:1'' ''4:abc:1'' ''4:abc:3'' ''WROTE'' []]\<rparr> \<and>
   distinct [''4:abc:1'', ''4:abc:2'', ''4:abc:3''] \<and> distinct [''5:def:0'', ''5:def:1''] \<and>
   ElementId orwell \<in> set [''4:abc:1'', ''4:abc:2'', ''4:abc:3'']"
proof -
  let ?qb = "[Raw ''MATCH (u:User)-[r:WROTE]->(p:Post) RETURN u, r, p'']"
  let ?G = "\<lparr>Nodes = [GraphNode ''4:abc:1'' [''User'']
                           [(''name'', VString ''George Orwell''), (''userId'', VString ''author-123'')],
                         GraphNode ''4:abc:2'' [''Post''] [(''postId'', VString ''post-1984'')],
                         GraphNode ''4:abc:3'' [''Post''] [(''postId'', VString ''post-farm'')]],
                Edges = [Edge ''5:def:0'' ''4:abc:1'' ''4:abc:2'' ''WROTE'' [],
                         Edge ''5:def:1'' ''4:abc:1'' ''4:abc:3'' ''WROTE'' []]\<rparr>"
  let ?first = "[(''u'', VNode orwell),
           (''r'', VRelationship (Relationship ''5:def:0'' ''4:abc:1'' ''4:abc:2'' ''WROTE'' [])),
           (''p'', VNode (Node ''4:abc:2'' [''Post''] [(''postId'', VString ''post-1984'')]))]"
  let ?second = "[(''u'', VNode orwell),
           (''r'', VRelationship (Relationship ''5:def:1'' ''4:abc:1'' ''4:abc:3'' ''WROTE'' [])),
           (''p'', VNode (Node ''4:abc:3'' [''Post''] [(''postId'', VString ''post-farm'')]))]"
  have b: "buildOk ?qb = Inr ()" by (simp add: buildOk_def)
  have r: "fanOutRecords () = Inr [?first, ?second]" by (simp add: fanOutRecords_def)
  have ne: "[?first, ?second] \<noteq> []" by simp
  have ev: "snd (FindGraph buildOk fanOutRecords ?qb) = Returns ?G"
    by (simp add: FindGraph_def buildOk_def fanOutRecords_def orwell_def collectRecords_def
        collectValue_def Values_def)
  from FindGraph_deduplicates[where bld = buildOk and qb = ?qb and pmRunner = fanOutRecords
      and q = "()", OF b r ne] obtain g where
    g: "snd (FindGraph buildOk fanOutRecords ?qb) = Returns g"
      "distinct (map ID (Nodes g))" "distinct (map EdgeID (Edges g))"
    and cov: "\<forall>rw\<in>set [?first, ?second]. \<forall>x\<in>set (Values rw).
         (\<forall>v. x = VNode v \<longrightarrow> ElementId v \<in> ID ` set (Nodes g)) \<and>
         (\<forall>v. x = VRelationship v \<longrightarrow> RelElementId v \<in> EdgeID ` set (Edges g))"
    by blast
  from g(1) ev have eq: "g = ?G" by simp
  have d: "distinct [''4:abc:1'', ''4:abc:2'', ''4:abc:3'']" "distinct [''5:def:0'', ''5:def:1'']"
    using g(2,3) unfolding eq by simp_all
  have m: "?first \<in> set [?first, ?second]" by (rule list.set_intros(1))
  have x: "VNode orwell \<in> set (Values ?first)" unfolding Values_def by simp
  have "ElementId orwell \<in> ID ` set (Nodes g)"
    using cov[rule_format, OF m x] by blast
  then have c: "ElementId orwell \<in> set [''4:abc:1'', ''4:abc:2'', ''4:abc:3'']"
    unfolding eq by simp
  from b ev d c show ?thesis by blast
qed

section \<open>Lookups and counts by property\<close>

text \<open>
  Claim C8. For a property name that no field is mapped to, \<open>FindByProperty\<close> returns
  the validation error having called neither the builder nor the runner. For a mapped
  name it calls the builder with the match on that property and that value, and then
  the runner with the query built.
\<close>

theorem FindByProperty_validation:
  "(propName \<notin> snd ` set (Mappings (meta r)) \<longrightarrow>
      FindByProperty bld r propName propValue
        = ([], Fails (NotMappedProperty propName (Label (meta r))))) \<and>
   (propName \<in> snd ` set (Mappings (meta r)) \<longrightarrow>
      fst (FindByProperty bld r propName propValue)
        = Build [Match (WithProperties (N ''n'' (Label (meta r))) [(propName, propValue)]),
                 Return [''n'']]
          # (case bld [Match (WithProperties (N ''n'' (Label (meta r))) [(propName, propValue)]),
                       Return [''n'']] of
               Inl err \<Rightarrow> []
             | Inr q \<Rightarrow> [Run q]))"
proof (intro conjI impI)
  assume "propName \<notin> snd ` set (Mappings (meta r))"
  then show "FindByProperty bld r propName propValue
        = ([], Fails (NotMappedProperty propName (Label (meta r))))"
    by (simp add: FindByProperty_def)
next
  assume "propName \<in> snd ` set (Mappings (meta r))"
  then have "\<exists>p\<in>set (map snd (Mappings (meta r))). p = propName" by auto
  then show "fst (FindByProperty bld r propName propValue)
        = Build [Match (WithProperties (N ''n'' (Label (meta r))) [(propName, propValue)]),
                 Return [''n'']]
          # (case bld [Match (WithProperties (N ''n'' (Label (meta r))) [(propName, propValue)]),
                       Return [''n'']] of
               Inl err \<Rightarrow> []
             | Inr q \<Rightarrow> [Run q])"
    unfolding FindByProperty_def Let_def by (simp split: sum.splits)
qed

text \<open>The \<open>User\<close> repository asked by \<open>email\<close>, which is not mapped, and by \<open>name\<close>.\<close>

theorem FindByProperty_validation_witness:
  "''email'' \<notin> snd ` set (Mappings (meta userRepo)) \<and>
   FindByProperty buildOk userRepo ''email'' (VString ''alice@example.com'')
     = ([], Fails (NotMappedProperty ''email'' ''User'')) \<and>
   ''name'' \<in> snd ` set (Mappings (meta userRepo)) \<and>
   fst (FindByProperty buildOk userRepo ''name'' (VString ''Alice''))
     = [Build [Match (WithProperties (N ''n'' ''User'') [(''name'', VString ''Alice'')]), Return [''n'']],
        Run ()]"
proof -
  have a: "''email'' \<notin> snd ` set (Mappings (meta userRepo))"
    and b: "''name'' \<in> snd ` set (Mappings (meta userRepo))"
    by (simp_all add: userRepo_def userMeta_def)
  have l: "Label (meta userRepo) = ''User''" by (simp add: userRepo_def userMeta_def)
  note t1 = FindByProperty_validation[where r = userRepo and bld = buildOk and propName = "''email''"
      and propValue = "VString ''alice@example.com''"]
  note t2 = FindByProperty_validation[where r = userRepo and bld = buildOk and propName = "''name''"
      and propValue = "VString ''Alice''"]
  have 1: "FindByProperty buildOk userRepo ''email'' (VString ''alice@example.com'')
     = ([], Fails (NotMappedProperty ''email'' ''User''))"
    using t1 a unfolding l by blast
  have 2: "fst (FindByProperty buildOk userRepo ''name'' (VString ''Alice''))
     = [Build [Match (WithProperties (N ''n'' ''User'') [(''name'', VString ''Alice'')]), Return [''n'']],
        Run ()]"
    using t2 b unfolding l by (simp add: buildOk_def)
  show ?thesis using a b 1 2 by blast
qed

text \<open>
  Claim C10. For every property name, mapped or not, \<open>CountByProperty\<close> calls the
  builder with the count query on that property and then the runner with the query
  built, and its outcome is what the runner's answer gives; for a name that is not
  mapped \<open>FindByProperty\<close> makes no call at all.
\<close>

theorem CountByProperty_unvalidated:
  "fst (CountByProperty bld r propName propValue)
     = Build [Match (WithProperties (N ''n'' (Label (meta r))) [(propName, propValue)]),
              Return [''count(n) AS count'']]
       # (case bld [Match (WithProperties (N ''n'' (Label (meta r))) [(propName, propValue)]),
                    Return [''count(n) AS count'']] of
            Inl err \<Rightarrow> []
          | Inr q \<Rightarrow> [Run q]) \<and>
   (\<forall>q. bld [Match (WithProperties (N ''n'' (Label (meta r))) [(propName, propValue)]),
              Return [''count(n) AS count'']] = Inr q \<longrightarrow>
      snd (CountByProperty bld r propName propValue)
        = (case runner r q of Inl err \<Rightarrow> Fails err | Inr records \<Rightarrow> countOf records)) \<and>
   (propName \<notin> snd ` set (Mappings (meta r)) \<longrightarrow>
      fst (FindByProperty bld r propName propValue) = [] \<and>
      fst (CountByProperty bld r propName propValue) \<noteq> [])"
proof (intro conjI allI impI)
  show c: "fst (CountByProperty bld r propName propValue)
     = Build [Match (WithProperties (N ''n'' (Label (meta r))) [(propName, propValue)]),
              Return [''count(n) AS count'']]
       # (case bld [Match (WithProperties (N ''n'' (Label (meta r))) [(propName, propValue)]),
                    Return [''count(n) AS count'']] of
            Inl err \<Rightarrow> []
          | Inr q \<Rightarrow> [Run q])"
    unfolding CountByProperty_def Let_def by (simp split: sum.splits)
  show "snd (CountByProperty bld r propName propValue)
        = (case runner r q of Inl err \<Rightarrow> Fails err | Inr records \<Rightarrow> countOf records)"
    if "bld [Match (WithProperties (N ''n'' (Label (meta r))) [(propName, propValue)]),
              Return [''count(n) AS count'']] = Inr q" for q
    using that unfolding CountByProperty_def Let_def by simp
  show "fst (FindByProperty bld r propName propValue) = []"
    if "propName \<notin> snd ` set (Mappings (meta r))"
    using that by (simp add: FindByProperty_def)
  show "fst (CountByProperty bld r propName propValue) \<noteq> []"
    unfolding c by simp
qed

text \<open>The \<open>User\<close> repository counted by \<open>email\<close>, which is not mapped.\<close>

theorem CountByProperty_unvalidated_witness:
  "''email'' \<notin> snd ` set (Mappings (meta userRepo)) \<and>
   buildOk [Match (WithProperties (N ''n'' ''User'') [(''email'', VString ''alice@example.com'')]),
            Return [''count(n) AS count'']] = Inr () \<and>
   CountByProperty buildOk (userRepo\<lparr>runner := countThree\<rparr>) ''email'' (VString ''alice@example.com'')
     = ([Build [Match (WithProperties (N ''n'' ''User'') [(''email'', VString ''alice@example.com'')]),
                Return [''count(n) AS count'']],
         Run ()],
        Returns 3) \<and>
   fst (FindByProperty buildOk (userRepo\<lparr>runner := countThree\<rparr>) ''email'' (VString ''alice@example.com''))
     = []"
proof -
  let ?r = "userRepo\<lparr>runner := countThree\<rparr>"
  have a: "''email'' \<notin> snd ` set (Mappings (meta ?r))"
    and l: "Label (meta ?r) = ''User''"
    by (simp_all add: userRepo_def userMeta_def)
  have b: "buildOk [Match (WithProperties (N ''n'' ''User'') [(''email'', VString ''alice@example.com'')]),
            Return [''count(n) AS count'']] = Inr ()"
    by (simp add: buildOk_def)
  note t = CountByProperty_unvalidated[where r = ?r and bld = buildOk and propName = "''email''"
      and propValue = "VString ''alice@example.com''", unfolded l]
  have 1: "fst (CountByProperty buildOk ?r ''email'' (VString ''alice@example.com''))
     = [Build [Match (WithProperties (N ''n'' ''User'') [(''email'', VString ''alice@example.com'')]),
                Return [''count(n) AS count'']], Run ()]"
    using t b by simp
  have "snd (CountByProperty buildOk ?r ''email'' (VString ''alice@example.com''))
     = (case runner ?r () of Inl err \<Rightarrow> Fails err | Inr records \<Rightarrow> countOf records)"
    using t b by blast
  then have 2: "snd (CountByProperty buildOk ?r ''email'' (VString ''alice@example.com'')) = Returns 3"
    by (simp add: countThree_def countOf_def Get_def)
  have 3: "fst (FindByProperty buildOk ?r ''email'' (VString ''alice@example.com'')) = []"
    using t a by blast
  show ?thesis using a b 1 2 3 by (simp add: prod_eq_iff userRepo_def userMeta_def)
qed

section \<open>The upsert\<close>

lemma settable_exported: "settable sv f = exported (map fst sv) f"
proof -
  have "map_option fst (find (\<lambda>fv. Name (fst fv) = f) sv) = find (\<lambda>d. Name d = f) (map fst sv)"
    by (induction sv) auto
  then show ?thesis
    by (simp add: settable_def exported_def fieldDecl_def declared_def lookupField_def)
qed

lemma Interface_settable:
  "settable sv f \<Longrightarrow> \<exists>x. valueOf sv f = Some x \<and> FieldInterface (StructValue sv) f = Returns x"
  by (cases "lookupField sv f")
     (auto simp: settable_def fieldDecl_def valueOf_def Interface_def FieldInterface_def FieldByName_def)

lemma Interface_not_settable: "\<not> settable sv f \<Longrightarrow> FieldInterface (StructValue sv) f = Panics"
  by (cases "lookupField sv f")
     (auto simp: settable_def fieldDecl_def Interface_def FieldInterface_def FieldByName_def)

lemma setPropsOf_Returns:
  assumes "\<forall>fp\<in>set M. settable sv (fst fp)" and "distinct (map fst acc)"
  shows "\<exists>sp. setPropsOf (StructValue sv) pk M acc = Returns sp \<and> distinct (map fst sp) \<and>
           fst ` set sp = fst ` set acc \<union> (\<lambda>fp. ''n.'' @ snd fp) ` set (filter (\<lambda>fp. fst fp \<noteq> pk) M) \<and>
           (\<forall>kx\<in>set sp. kx \<in> set acc \<or>
              (\<exists>fp\<in>set M. fst fp \<noteq> pk \<and> fst kx = ''n.'' @ snd fp \<and>
                 valueOf sv (fst fp) = Some (snd kx)))"
  using assms
proof (induction M arbitrary: acc)
  case Nil
  then show ?case by simp
next
  case (Cons fp M)
  obtain f p where fp: "fp = (f, p)" by (cases fp)
  have rest: "\<forall>fp\<in>set M. settable sv (fst fp)" using Cons.prems(1) by simp
  show ?case
  proof (cases "f = pk")
    case True
    from Cons.IH[OF rest Cons.prems(2)] obtain sp where
      sp: "setPropsOf (StructValue sv) pk M acc = Returns sp" "distinct (map fst sp)"
        "fst ` set sp = fst ` set acc \<union> (\<lambda>fp. ''n.'' @ snd fp) ` set (filter (\<lambda>fp. fst fp \<noteq> pk) M)"
        "\<forall>kx\<in>set sp. kx \<in> set acc \<or>
              (\<exists>fp\<in>set M. fst fp \<noteq> pk \<and> fst kx = ''n.'' @ snd fp \<and>
                 valueOf sv (fst fp) = Some (snd kx))"
      by blast
    have r: "setPropsOf (StructValue sv) pk (fp # M) acc = Returns sp" using sp(1) True fp by simp
    have k: "fst ` set sp = fst ` set acc \<union>
               (\<lambda>fp. ''n.'' @ snd fp) ` set (filter (\<lambda>fp. fst fp \<noteq> pk) (fp # M))"
      using sp(3) True fp by simp
    have v: "\<forall>kx\<in>set sp. kx \<in> set acc \<or>
              (\<exists>q\<in>set (fp # M). fst q \<noteq> pk \<and> fst kx = ''n.'' @ snd q \<and>
                 valueOf sv (fst q) = Some (snd kx))"
      using sp(4) by (metis list.set_intros(2))
    show ?thesis using r sp(2) k v by blast
  next
    case False
    have "settable sv f" using Cons.prems(1) fp by simp
    then obtain x where x: "valueOf sv f = Some x" "FieldInterface (StructValue sv) f = Returns x"
      using Interface_settable by blast
    let ?acc = "AList.update (''n.'' @ p) x acc"
    have d: "distinct (map fst ?acc)" using Cons.prems(2) by (simp add: AList.distinct_update)
    from Cons.IH[OF rest d] obtain sp where
      sp: "setPropsOf (StructValue sv) pk M ?acc = Returns sp" "distinct (map fst sp)"
        "fst ` set sp = fst ` set ?acc \<union> (\<lambda>fp. ''n.'' @ snd fp) ` set (filter (\<lambda>fp. fst fp \<noteq> pk) M)"
        "\<forall>kx\<in>set sp. kx \<in> set ?acc \<or>
              (\<exists>fp\<in>set M. fst fp \<noteq> pk \<and> fst kx = ''n.'' @ snd fp \<and>
                 valueOf sv (fst fp) = Some (snd kx))"
      by blast
    have r: "setPropsOf (StructValue sv) pk (fp # M) acc = Returns sp" using sp(1) False fp x(2) by simp
    have k: "fst ` set sp = fst ` set acc \<union>
               (\<lambda>fp. ''n.'' @ snd fp) ` set (filter (\<lambda>fp. fst fp \<noteq> pk) (fp # M))"
      unfolding sp(3) AList.dom_update using False fp by simp
    have v: "\<forall>kx\<in>set sp. kx \<in> set acc \<or>
              (\<exists>q\<in>set (fp # M). fst q \<noteq> pk \<and> fst kx = ''n.'' @ snd q \<and>
                 valueOf sv (fst q) = Some (snd kx))"
    proof
      fix kx assume "kx \<in> set sp"
      then consider "kx \<in> set ?acc" | "\<exists>q\<in>set M. fst q \<noteq> pk \<and> fst kx = ''n.'' @ snd q \<and>
                 valueOf sv (fst q) = Some (snd kx)"
        using sp(4) by blast
      then show "kx \<in> set acc \<or>
              (\<exists>q\<in>set (fp # M). fst q \<noteq> pk \<and> fst kx = ''n.'' @ snd q \<and>
                 valueOf sv (fst q) = Some (snd kx))"
      proof cases
        case 1
        then have "kx = (''n.'' @ p, x) \<or> kx \<in> set acc"
          using set_alist_update[of "''n.'' @ p" x acc] by blast
        then show ?thesis
        proof
          assume "kx = (''n.'' @ p, x)"
          then have "fst fp \<noteq> pk \<and> fst kx = ''n.'' @ snd fp \<and> valueOf sv (fst fp) = Some (snd kx)"
            using False fp x(1) by simp
          then show ?thesis by (metis list.set_intros(1))
        next
          assume "kx \<in> set acc"
          then show ?thesis by simp
        qed
      next
        case 2
        then show ?thesis by (metis list.set_intros(2))
      qed
    qed
    show ?thesis using r sp(2) k v by blast
  qed
qed

text \<open>
  Claim C9, as the code has it. Let every mapped field of the entity, the key field
  included, be exported, so that reflection can read it. Then \<open>Save\<close> calls the
  builder once, with the upsert whose merge pattern carries one property, the key
  property bound to the current value of the key field, and whose SET map has exactly
  the keys \<open>n.\<close>\<open>property\<close> of the mapped fields other than the key field, each bound
  to the current value of such a field; it then runs the query built. The key field
  never contributes to the SET map; the key property is among its keys exactly when
  another mapped field has the same property name.
\<close>

theorem Save_upsert:
  assumes "exported (fieldsOf ent) (PKField (meta r))"
    and "\<forall>fp\<in>set (Mappings (meta r)). exported (fieldsOf ent) (fst fp)"
  shows "\<exists>pkValue setProps.
           fieldValue ent (PKField (meta r)) = Some pkValue \<and>
           Save bld r ent =
             (Build (upsertQuery (meta r) pkValue setProps)
                # (case bld (upsertQuery (meta r) pkValue setProps) of
                     Inl err \<Rightarrow> []
                   | Inr q \<Rightarrow> [Run q]),
              case bld (upsertQuery (meta r) pkValue setProps) of
                Inl err \<Rightarrow> Fails err
              | Inr q \<Rightarrow> (case runner r q of Inl err \<Rightarrow> Fails err | Inr _ \<Rightarrow> Returns ())) \<and>
           distinct (map fst setProps) \<and>
           fst ` set setProps = setKeys (meta r) \<and>
           (\<forall>kx\<in>set setProps. \<exists>fp\<in>set (Mappings (meta r)).
              fst fp \<noteq> PKField (meta r) \<and> fst kx = ''n.'' @ snd fp \<and>
              fieldValue ent (fst fp) = Some (snd kx)) \<and>
           (''n.'' @ PKProp (meta r) \<in> fst ` set setProps \<longleftrightarrow>
              (\<exists>f. f \<noteq> PKField (meta r) \<and> (f, PKProp (meta r)) \<in> set (Mappings (meta r))))"
proof -
  let ?m = "meta r"
  obtain sv where ent: "ent = StructValue sv"
    using assms(1) by (cases ent) (simp_all add: fieldsOf_def exported_def declared_def)
  have fo: "fieldsOf ent = map fst sv" by (simp add: ent fieldsOf_def)
  have fv: "fieldValue ent name = valueOf sv name" for name by (simp add: ent fieldValue_def)
  have "settable sv (PKField ?m)" using assms(1) by (simp add: settable_exported fo)
  then obtain pkValue where pk: "valueOf sv (PKField ?m) = Some pkValue"
      "FieldInterface (StructValue sv) (PKField ?m) = Returns pkValue"
    using Interface_settable by blast
  have "\<forall>fp\<in>set (Mappings ?m). settable sv (fst fp)"
    using assms(2) by (simp add: settable_exported fo)
  from setPropsOf_Returns[OF this, of "[]" "PKField ?m"] obtain sp where
    sp: "setPropsOf (StructValue sv) (PKField ?m) (Mappings ?m) [] = Returns sp" "distinct (map fst sp)"
      "fst ` set sp = (\<lambda>fp. ''n.'' @ snd fp) ` set (filter (\<lambda>fp. fst fp \<noteq> PKField ?m) (Mappings ?m))"
      "\<forall>kx\<in>set sp. \<exists>fp\<in>set (Mappings ?m). fst fp \<noteq> PKField ?m \<and> fst kx = ''n.'' @ snd fp \<and>
                 valueOf sv (fst fp) = Some (snd kx)"
    by auto
  have k: "fst ` set sp = setKeys ?m" using sp(3) by (simp add: setKeys_def)
  have s: "Save bld r ent =
             (Build (upsertQuery ?m pkValue sp)
                # (case bld (upsertQuery ?m pkValue sp) of Inl err \<Rightarrow> [] | Inr q \<Rightarrow> [Run q]),
              case bld (upsertQuery ?m pkValue sp) of
                Inl err \<Rightarrow> Fails err
              | Inr q \<Rightarrow> (case runner r q of Inl err \<Rightarrow> Fails err | Inr _ \<Rightarrow> Returns ()))"
    unfolding Save_def Let_def upsertQuery_def ent
    by (simp add: pk(2) sp(1) split: sum.splits)
  have p: "''n.'' @ PKProp ?m \<in> fst ` set sp \<longleftrightarrow>
              (\<exists>f. f \<noteq> PKField ?m \<and> (f, PKProp ?m) \<in> set (Mappings ?m))"
  proof
    assume "''n.'' @ PKProp ?m \<in> fst ` set sp"
    then obtain fp where "fp \<in> set (Mappings ?m)" "fst fp \<noteq> PKField ?m" "''n.'' @ PKProp ?m = ''n.'' @ snd fp"
      unfolding k setKeys_def by blast
    then have "fst fp \<noteq> PKField ?m \<and> (fst fp, PKProp ?m) \<in> set (Mappings ?m)" by simp
    then show "\<exists>f. f \<noteq> PKField ?m \<and> (f, PKProp ?m) \<in> set (Mappings ?m)" by blast
  next
    assume "\<exists>f. f \<noteq> PKField ?m \<and> (f, PKProp ?m) \<in> set (Mappings ?m)"
    then obtain f where "f \<noteq> PKField ?m" "(f, PKProp ?m) \<in> set (Mappings ?m)" by blast
    then have "''n.'' @ snd (f, PKProp ?m) \<in> setKeys ?m"
      unfolding setKeys_def by (intro imageI) simp
    then show "''n.'' @ PKProp ?m \<in> fst ` set sp" unfolding k by simp
  qed
  have v: "\<forall>kx\<in>set sp. \<exists>fp\<in>set (Mappings ?m). fst fp \<noteq> PKField ?m \<and> fst kx = ''n.'' @ snd fp \<and>
                 fieldValue ent (fst fp) = Some (snd kx)"
    using sp(4) by (simp add: fv)
  have pkv: "fieldValue ent (PKField ?m) = Some pkValue" using pk(1) by (simp add: fv)
  show ?thesis using pkv s sp(2) k v p by blast
qed

text \<open>
  Against C9 as stated: with a second field mapped to the property of the key, the SET
  clause assigns the key property; and with an unexported mapped field \<open>Save\<close> panics
  in \<^verbatim>\<open>Interface()\<close> before any query is built.
\<close>

theorem Save_sets_key_property:
  "parseTagsFromType (Struct ''Audit'' auditFields) = Returns (meta auditRepo) \<and>
   Save buildOk auditRepo
       (StructValue [(StructField ''ID'' [] TString ''pk,property:id'', VString ''a1''),
        (StructField ''Legacy'' [] TString ''property:id'', VString ''old'')])
     = ([Build [Merge (WithProperties (N ''n'' ''Audit'') [(''id'', VString ''a1'')]),
                SetClause [(''n.id'', VString ''old'')], Return [''n'']],
         Run ()],
        Returns ()) \<and>
   parseTagsFromType (Struct ''Member'' memberFields) = Returns (meta memberRepo) \<and>
   Save buildOk memberRepo
       (StructValue [(StructField ''ID'' [] TString ''pk,property:id'', VString ''m1''),
        (StructField ''name'' ''models'' TString ''property:name'', VString ''Alice'')])
     = ([], Panics)"
  by (simp add: parseTagsFromType_def auditFields_def auditMeta_def auditRepo_def
      memberFields_def memberMeta_def memberRepo_def tag_eval Save_def reflect_eval
      buildOk_def noRecords_def)

text \<open>The upsert of the \<open>User\<close> of the examples.\<close>

theorem Save_upsert_witness:
  "exported (fieldsOf (StructValue [(StructField ''UserID'' [] TString ''pk,property:userId'', VString ''u1''),
                      (StructField ''Name'' [] TString ''property:name'', VString ''Alice'')]))
     (PKField (meta userRepo)) \<and>
   list_all (\<lambda>fp. exported (fieldsOf (StructValue [(StructField ''UserID'' [] TString ''pk,property:userId'', VString ''u1''),
                      (StructField ''Name'' [] TString ''property:name'', VString ''Alice'')])) (fst fp))
     (Mappings (meta userRepo)) \<and>
   Save buildOk userRepo
       (StructValue [(StructField ''UserID'' [] TString ''pk,property:userId'', VString ''u1''),
        (StructField ''Name'' [] TString ''property:name'', VString ''Alice'')])
     = ([Build [Merge (WithProperties (N ''n'' ''User'') [(''userId'', VString ''u1'')]),
                SetClause [(''n.name'', VString ''Alice'')], Return [''n'']],
         Run ()],
        Returns ()) \<and>
   setKeys (meta userRepo) = {''n.name''}"
proof -
  let ?ent = "StructValue [(StructField ''UserID'' [] TString ''pk,property:userId'', VString ''u1''),
               (StructField ''Name'' [] TString ''property:name'', VString ''Alice'')]"
  have a: "exported (fieldsOf ?ent) (PKField (meta userRepo))"
    and b: "\<forall>fp\<in>set (Mappings (meta userRepo)). exported (fieldsOf ?ent) (fst fp)"
    by (simp_all add: exported_def declared_def fieldsOf_def userRepo_def userMeta_def)
  have ev: "Save buildOk userRepo ?ent
     = ([Build [Merge (WithProperties (N ''n'' ''User'') [(''userId'', VString ''u1'')]),
                SetClause [(''n.name'', VString ''Alice'')], Return [''n'']],
         Run ()],
        Returns ())"
    by (simp add: Save_def reflect_eval userRepo_def userMeta_def buildOk_def noRecords_def)
  from Save_upsert[OF a b, of buildOk] obtain pkValue setProps where
    s: "Save buildOk userRepo ?ent =
             (Build (upsertQuery (meta userRepo) pkValue setProps)
                # (case buildOk (upsertQuery (meta userRepo) pkValue setProps) of
                     Inl err \<Rightarrow> []
                   | Inr q \<Rightarrow> [Run q]),
              case buildOk (upsertQuery (meta userRepo) pkValue setProps) of
                Inl err \<Rightarrow> Fails err
              | Inr q \<Rightarrow> (case runner userRepo q of Inl err \<Rightarrow> Fails err | Inr _ \<Rightarrow> Returns ()))"
      and k: "fst ` set setProps = setKeys (meta userRepo)"
    by blast
  from s ev have "setProps = [(''n.name'', VString ''Alice'')]"
    by (simp add: upsertQuery_def buildOk_def)
  with k have "setKeys (meta userRepo) = {''n.name''}" by simp
  with a b ev show ?thesis by (simp add: list_all_iff)
qed

section \<open>Results of an unexpected shape\<close>

text \<open>
  Claim C7 says that no operation panics on a result whose shape it can detect to be
  wrong. The code does, at these inputs:
  \<^item> a node whose \<open>name\<close> is a number, for a field of type string: \<open>FindByID\<close> and
    \<open>Find\<close> panic in reflection's \<^verbatim>\<open>Set\<close>;
  \<^item> a record without a node under \<open>n\<close>: \<open>FindAll\<close> and \<open>FindByProperty\<close> panic in the
    unchecked type assertion;
  \<^item> a count that is a string: \<open>Count\<close> panics in the unchecked type assertion.
  \<open>FindByID\<close> checks the same assertion and returns an error on the second input.
\<close>

theorem shape_mismatch_panics:
  "snd (FindByID buildOk (userRepo\<lparr>runner := mistypedRecords\<rparr>) (VString ''u9'')) = Panics \<and>
   snd (Find buildOk (userRepo\<lparr>runner := mistypedRecords\<rparr>) [Raw ''MATCH (n:User) RETURN n''])
     = Panics \<and>
   snd (FindAll buildOk (userRepo\<lparr>runner := countThree\<rparr>)) = Panics \<and>
   snd (FindByProperty buildOk (userRepo\<lparr>runner := countThree\<rparr>) ''name'' (VString ''Alice''))
     = Panics \<and>
   snd (Count buildOk (userRepo\<lparr>runner := textCount\<rparr>)) = Panics \<and>
   snd (FindByID buildOk (userRepo\<lparr>runner := countThree\<rparr>) (VString ''u9''))
     = Fails ReturnValueMissing"
  by (simp add: FindByID_def Find_def FindAll_def FindByProperty_def Count_def countOf_def
      userRepo_def userMeta_def userFields_def buildOk_def mistypedRecords_def countThree_def
      textCount_def reflect_eval hydrate_eval)

end
